theory Spec2Isabelle
  imports Complex_Main
begin

section \<open>Common Go notions\<close>

text \<open>
  A Go \<^verbatim>\<open>error\<close> value is modelled by its message; a nil error is \<open>None\<close> of
  \<open>error option\<close>. A run-time panic is a value of its own type, so that a function
  that can panic returns \<open>panic + 'a\<close>.
\<close>

datatype error = Error string

datatype panic = NilPointerDereference | IndexOutOfRange

text \<open>
  A Go map may be nil. Reading a nil map behaves like reading an empty one; \<open>mapget\<close>
  is the read \<^verbatim>\<open>v, ok := m[k]\<close> with \<open>None\<close> for \<^verbatim>\<open>ok == false\<close>.
\<close>

definition mapget :: "('k \<rightharpoonup> 'v) option \<Rightarrow> 'k \<Rightarrow> 'v option" where
  "mapget m k = (case m of None \<Rightarrow> None | Some t \<Rightarrow> t k)"

text \<open>
  \<^verbatim>\<open>strings.Contains(s, "/")\<close> and \<^verbatim>\<open>strings.Split(s, "/")\<close>: the only separator the
  source passes is the one-byte string \<^verbatim>\<open>"/"\<close>, so both are modelled for a separator of
  one character. \<open>Split\<close> returns every piece between separators, the empty pieces too,
  and one piece (the whole string) when the separator does not occur.
\<close>

definition Contains :: "string \<Rightarrow> char \<Rightarrow> bool" where
  "Contains s c = (c \<in> set s)"

fun Split :: "string \<Rightarrow> char \<Rightarrow> string list" where
  "Split [] c = [[]]"
| "Split (x # xs) c =
     (if x = c then [] # Split xs c
      else (case Split xs c of [] \<Rightarrow> [[x]] | p # ps \<Rightarrow> (x # p) # ps))"

section \<open>The cluster registry (package clusters)\<close>

subsection \<open>ClusterInfo records and the pointers to them\<close>

record ClusterInfo =
  ID :: string
  Name :: string
  Profile :: string
  Provider :: string
  Provisioner :: string

text \<open>
  The registry stores \<^verbatim>\<open>*ClusterInfo\<close> pointers and hands out clones, so the records
  live in an explicit store: an address is an index into the list of all records
  allocated so far, \<^verbatim>\<open>&ClusterInfo{...}\<close> appends a record and returns its index, and a
  nil pointer is \<open>None\<close> of \<open>addr option\<close>.
\<close>

type_synonym addr = nat
type_synonym heap = "ClusterInfo list"

definition alloc :: "heap \<Rightarrow> ClusterInfo \<Rightarrow> addr \<times> heap" where
  "alloc h ci = (length h, h @ [ci])"

text \<open>\<^verbatim>\<open>func (ci *ClusterInfo) Clone() *ClusterInfo\<close>\<close>

definition Clone :: "heap \<Rightarrow> addr option \<Rightarrow> addr option \<times> heap" where
  "Clone h ci =
     (case ci of
        None \<Rightarrow> (None, h)
      | Some a \<Rightarrow>
          (let (b, h') = alloc h
                 \<lparr>ID = ID (h ! a), Name = Name (h ! a), Profile = Profile (h ! a),
                  Provider = Provider (h ! a), Provisioner = Provisioner (h ! a)\<rparr>
           in (Some b, h')))"

subsection \<open>The registry and its read operations\<close>

text \<open>
  \<^verbatim>\<open>PrometheusClusterMap\<close>: \<open>clusters\<close> is the snapshot, a map from cluster id to the
  address of its record (every pointer the source stores in the map is the result of a
  \<^verbatim>\<open>&ClusterInfo{...}\<close>, so none is nil); \<open>localCluster\<close> is the map that
  \<^verbatim>\<open>LocalClusterInfoProvider.GetClusterInfo()\<close> returns. The lock, the client handle and
  the stop channel carry no data; what the client answers is part of the \<open>world\<close>
  that \<open>loadClusters\<close> below takes as an argument.
\<close>

record PrometheusClusterMap =
  clusters :: "(string \<rightharpoonup> addr) option"
  localCluster :: "string \<rightharpoonup> string"

definition InfoFor :: "PrometheusClusterMap \<Rightarrow> heap \<Rightarrow> string \<Rightarrow> addr option \<times> heap" where
  "InfoFor pcm h clusterID =
     (case mapget (clusters pcm) clusterID of
        Some info \<Rightarrow> Clone h (Some info)
      | None \<Rightarrow> (None, h))"

definition NameFor :: "PrometheusClusterMap \<Rightarrow> heap \<Rightarrow> string \<Rightarrow> string" where
  "NameFor pcm h clusterID =
     (case mapget (clusters pcm) clusterID of
        Some info \<Rightarrow> Name (h ! info)
      | None \<Rightarrow> [])"

definition NameIDFor :: "PrometheusClusterMap \<Rightarrow> heap \<Rightarrow> string \<Rightarrow> string" where
  "NameIDFor pcm h clusterID =
     (case mapget (clusters pcm) clusterID of
        Some info \<Rightarrow>
          (if Name (h ! info) = [] then clusterID
           else Name (h ! info) @ ''/'' @ clusterID)
      | None \<Rightarrow> clusterID)"

text \<open>
  \<^verbatim>\<open>SplitNameID\<close> returns the pair \<open>(id, name)\<close>. The two index reads
  \<^verbatim>\<open>split[0]\<close> and \<^verbatim>\<open>split[1]\<close> panic in Go when the slice is too short; the model keeps
  that branch.
\<close>

definition SplitNameID :: "string \<Rightarrow> panic + (string \<times> string)" where
  "SplitNameID nameID =
     (if \<not> Contains nameID CHR ''/'' then Inr (nameID, [])
      else (case Split nameID CHR ''/'' of
              name # ident # _ \<Rightarrow> Inr (ident, name)
            | _ \<Rightarrow> Inl IndexOutOfRange))"

text \<open>
  The reading of \<^verbatim>\<open>SplitNameID\<close> in the specification: without a \<open>/\<close> the whole string is
  the id; otherwise the name is everything before the first \<open>/\<close> and the id is
  everything after it.
\<close>

definition SplitNameID_spec :: "string \<Rightarrow> string \<times> string" where
  "SplitNameID_spec nameID =
     (if CHR ''/'' \<notin> set nameID then (nameID, [])
      else (tl (dropWhile (\<lambda>c. c \<noteq> CHR ''/'') nameID),
            takeWhile (\<lambda>c. c \<noteq> CHR ''/'') nameID))"

subsection \<open>Loading and refreshing the snapshot\<close>

text \<open>
  Modelled from the spec: \<^verbatim>\<open>prom.QueryResult\<close> and its \<^verbatim>\<open>GetString\<close> (package prom, not
  among the sources). A result row carries string-valued labels (\<open>id\<close>, \<open>name\<close> and
  optionally \<open>clusterprofile\<close>, \<open>provider\<close>, \<open>provisioner\<close>); \<open>GetString\<close> returns the
  value of a label, or an error when the row does not have it.
\<close>

type_synonym QueryResult = "string \<rightharpoonup> string"

definition GetString :: "QueryResult \<Rightarrow> string \<Rightarrow> error + string" where
  "GetString result field =
     (case result field of
        None \<Rightarrow> Inl (Error (field @ '' field does not exist in data result vector''))
      | Some v \<Rightarrow> Inr v)"

text \<open>
  What a refresh reads from outside the registry: \<open>GetClusterID\<close> is
  \<^verbatim>\<open>env.GetClusterID()\<close>, \<open>IsThanos\<close> is \<^verbatim>\<open>prom.IsThanos(pcm.client)\<close>, \<open>QueryOffset\<close> is
  \<^verbatim>\<open>thanos.QueryOffset()\<close>, and \<open>QuerySync q i\<close> is what the time-series backend
  answers (rows and error) to the \<open>i\<close>-th execution of the query \<open>q\<close> during this refresh.
\<close>

record world =
  GetClusterID :: string
  IsThanos :: bool
  QueryOffset :: string
  QuerySync :: "string \<Rightarrow> nat \<Rightarrow> QueryResult list \<times> error option"

definition LoadRetries :: nat where
  "LoadRetries = 6"

definition clusterInfoQuery :: "string \<Rightarrow> string" where
  "clusterInfoQuery offset = ''kubecost_cluster_info'' @ offset"

text \<open>
  The \<^verbatim>\<open>interface{}\<close> value that \<^verbatim>\<open>retry.Retry\<close> returns: \<^verbatim>\<open>loadClusters\<close> only
  asks whether its dynamic type is \<^verbatim>\<open>[]*prom.QueryResult\<close>.
\<close>

datatype iface = QueryResults "QueryResult list" | NilInterface

text \<open>
  Modelled from the spec: \<^verbatim>\<open>retry.Retry\<close> (package util/retry, not among the sources).
  The spec: bounded retry, up to the given number of attempts with a fixed delay
  between them, and a final failure when the last attempt fails. \<open>Retry f attempts i\<close>
  calls \<open>f\<close> (whose \<open>i\<close>-th call returns \<open>f i\<close>) until a call returns no error or
  \<open>attempts\<close> calls have been made, and returns the result and error of the last call.
  The delay takes time only and is not modelled. With no attempt at all, nothing was
  called and both results are nil.
\<close>

fun Retry :: "(nat \<Rightarrow> QueryResult list \<times> error option) \<Rightarrow> nat \<Rightarrow> nat \<Rightarrow> iface \<times> error option" where
  "Retry f 0 i = (NilInterface, None)"
| "Retry f (Suc n) i =
     (case f i of
        (r, None) \<Rightarrow> (QueryResults r, None)
      | (r, Some e) \<Rightarrow> (if n = 0 then (QueryResults r, Some e) else Retry f n (Suc i)))"

text \<open>
  The loop \<^verbatim>\<open>for _, result := range qr\<close> of \<^verbatim>\<open>loadClusters\<close>: \<open>clusters'\<close> is the local
  map \<^verbatim>\<open>clusters\<close> under construction. A row without \<open>id\<close> or without \<open>name\<close> is skipped
  (\<^verbatim>\<open>continue\<close>); the three other labels default to the empty string.
\<close>

fun loadQueryResults :: "QueryResult list \<Rightarrow> (string \<rightharpoonup> addr) \<Rightarrow> heap \<Rightarrow> (string \<rightharpoonup> addr) \<times> heap" where
  "loadQueryResults [] clusters' h = (clusters', h)"
| "loadQueryResults (result # qr) clusters' h =
     (case GetString result ''id'' of
        Inl err \<Rightarrow> loadQueryResults qr clusters' h
      | Inr ident \<Rightarrow>
          (case GetString result ''name'' of
             Inl err \<Rightarrow> loadQueryResults qr clusters' h
           | Inr name \<Rightarrow>
               (let profile = (case GetString result ''clusterprofile'' of
                                 Inl err \<Rightarrow> [] | Inr v \<Rightarrow> v);
                    provider = (case GetString result ''provider'' of
                                  Inl err \<Rightarrow> [] | Inr v \<Rightarrow> v);
                    provisioner = (case GetString result ''provisioner'' of
                                     Inl err \<Rightarrow> [] | Inr v \<Rightarrow> v);
                    (a, h') = alloc h \<lparr>ID = ident, Name = name, Profile = profile,
                                       Provider = provider, Provisioner = provisioner\<rparr>
                in loadQueryResults qr (clusters'(ident \<mapsto> a)) h')))"

text \<open>\<^verbatim>\<open>getLocalClusterInfo\<close>: the local identity, or an error when id or name is missing.\<close>

definition getLocalClusterInfo :: "PrometheusClusterMap \<Rightarrow> heap \<Rightarrow> (error + addr) \<times> heap" where
  "getLocalClusterInfo pcm h =
     (let info = localCluster pcm in
      case info ''id'' of
        None \<Rightarrow> (Inl (Error ''Local Cluster Info Missing ID''), h)
      | Some ident \<Rightarrow>
          (case info ''name'' of
             None \<Rightarrow> (Inl (Error ''Local Cluster Info Missing Name''), h)
           | Some name \<Rightarrow>
               (let clusterProfile = (case info ''clusterProfile'' of None \<Rightarrow> [] | Some cp \<Rightarrow> cp);
                    provider = (case info ''provider'' of None \<Rightarrow> [] | Some pvdr \<Rightarrow> pvdr);
                    provisioner = (case info ''provisioner'' of None \<Rightarrow> [] | Some pvsr \<Rightarrow> pvsr);
                    (a, h') = alloc h \<lparr>ID = ident, Name = name, Profile = clusterProfile,
                                       Provider = provider, Provisioner = provisioner\<rparr>
                in (Inr a, h'))))"

text \<open>
  \<^verbatim>\<open>loadClusters\<close> returns the new map (nil is \<open>None\<close>) and the error, as the Go function
  returns both. The type assertion on the result of the retry and the test of its error
  come first; then the rows are loaded and the local cluster is added when its id is not
  among them.
\<close>

definition loadClusters ::
  "world \<Rightarrow> PrometheusClusterMap \<Rightarrow> heap \<Rightarrow> ((string \<rightharpoonup> addr) option \<times> error option) \<times> heap" where
  "loadClusters w pcm h =
     (let offset = (if IsThanos w then QueryOffset w else []);
          tryQuery = (\<lambda>i. QuerySync w (clusterInfoQuery offset) i);
          (result, err) = Retry tryQuery LoadRetries 0
      in case result of
           NilInterface \<Rightarrow> ((None, err), h)
         | QueryResults qr \<Rightarrow>
             (if err \<noteq> None then ((None, err), h)
              else
                (let (clusters', h1) = loadQueryResults qr Map.empty h;
                     localID = GetClusterID w
                 in if clusters' localID = None
                    then (case getLocalClusterInfo pcm h1 of
                            (Inl e, h2) \<Rightarrow> ((Some clusters', None), h2)
                          | (Inr localInfo, h2) \<Rightarrow>
                              ((Some (clusters'(ID (h2 ! localInfo) \<mapsto> localInfo)), None), h2))
                    else ((Some clusters', None), h1))))"

text \<open>\<^verbatim>\<open>refreshClusters\<close>: on an error of the load, return; otherwise swap the map in.\<close>

definition refreshClusters :: "world \<Rightarrow> PrometheusClusterMap \<Rightarrow> heap \<Rightarrow> PrometheusClusterMap \<times> heap" where
  "refreshClusters w pcm h =
     (case loadClusters w pcm h of
        ((updated, Some err), h') \<Rightarrow> (pcm, h')
      | ((updated, None), h') \<Rightarrow> (pcm\<lparr>clusters := updated\<rparr>, h'))"

text \<open>
  Notions the properties of the loader are stated with. A row is valid when it has
  both critical labels; \<open>rowInfo\<close> is the record a valid row describes, absent labels
  read as the empty string; \<open>localClusterInfo\<close> is the record that \<^verbatim>\<open>getLocalClusterInfo\<close>
  builds from the local identity; \<open>snapshot\<close> reads a map of pointers as the map of the
  records they point to.
\<close>

definition validRow :: "QueryResult \<Rightarrow> bool" where
  "validRow r = (r ''id'' \<noteq> None \<and> r ''name'' \<noteq> None)"

definition label :: "QueryResult \<Rightarrow> string \<Rightarrow> string" where
  "label r f = (case r f of None \<Rightarrow> [] | Some v \<Rightarrow> v)"

definition rowInfo :: "QueryResult \<Rightarrow> ClusterInfo" where
  "rowInfo r = \<lparr>ID = label r ''id'', Name = label r ''name'', Profile = label r ''clusterprofile'',
               Provider = label r ''provider'', Provisioner = label r ''provisioner''\<rparr>"

definition localClusterInfo :: "PrometheusClusterMap \<Rightarrow> ClusterInfo" where
  "localClusterInfo pcm =
     \<lparr>ID = label (localCluster pcm) ''id'', Name = label (localCluster pcm) ''name'',
      Profile = label (localCluster pcm) ''clusterProfile'',
      Provider = label (localCluster pcm) ''provider'',
      Provisioner = label (localCluster pcm) ''provisioner''\<rparr>"

definition snapshot :: "(string \<rightharpoonup> addr) \<Rightarrow> heap \<Rightarrow> (string \<rightharpoonup> ClusterInfo)" where
  "snapshot m h = (\<lambda>k. case m k of None \<Rightarrow> None | Some a \<Rightarrow> Some (h ! a))"

text \<open>
  For the proofs: \<open>heap_ok\<close> says that every pointer of a map is allocated,
  \<open>registry_ok\<close> says it of the registry's snapshot, and \<open>applyRow\<close> is the effect of one
  row on a snapshot read as records.
\<close>

definition heap_ok :: "(string \<rightharpoonup> addr) \<Rightarrow> heap \<Rightarrow> bool" where
  "heap_ok m h = (\<forall>k a. m k = Some a \<longrightarrow> a < length h)"

definition registry_ok :: "PrometheusClusterMap \<Rightarrow> heap \<Rightarrow> bool" where
  "registry_ok pcm h = (case clusters pcm of None \<Rightarrow> True | Some m \<Rightarrow> heap_ok m h)"

definition applyRow :: "QueryResult \<Rightarrow> (string \<rightharpoonup> ClusterInfo) \<Rightarrow> (string \<rightharpoonup> ClusterInfo)" where
  "applyRow r v = (if validRow r then v(label r ''id'' \<mapsto> rowInfo r) else v)"

section \<open>The custom pricing provider (package cloud)\<close>

subsection \<open>Configuration\<close>

text \<open>
  Modelled from the spec: the type \<^verbatim>\<open>CustomPricing\<close> (declared outside the sources), the
  rate card of the configuration. It has the fields that the source reads; all of them
  are strings.
\<close>

record CustomPricing =
  CPU :: string
  RAM :: string
  GPU :: string
  SpotCPU :: string
  SpotRAM :: string
  SpotLabel :: string
  SpotLabelValue :: string
  GpuLabel :: string
  GpuLabelValue :: string
  Storage :: string
  ZoneNetworkEgress :: string
  RegionNetworkEgress :: string
  InternetNetworkEgress :: string
  FirstFiveForwardingRulesCost :: string
  AdditionalForwardingRuleCost :: string
  LBIngressDataCost :: string
  ClusterName :: string




text \<open>
  Modelled from the spec: \<^verbatim>\<open>ProviderConfig\<close> (not among the sources), the shared
  configuration object behind \<^verbatim>\<open>cp.Config\<close>. \<open>customPricing\<close> is the configuration it
  holds; \<open>loadError\<close>, when set, is the error with which fetching the configuration
  fails. \<open>GetCustomPricingData\<close> fetches the current configuration. \<open>Update\<close> is
  all-or-nothing, as the spec requires of a configuration update: it runs the update
  function on a copy of the current configuration and stores the result only when the
  function returns no error; on an error the configuration is left as it was.
\<close>

record ProviderConfig =
  customPricing :: CustomPricing
  loadError :: "error option"

definition GetCustomPricingData :: "ProviderConfig \<Rightarrow> error + CustomPricing" where
  "GetCustomPricingData pc =
     (case loadError pc of Some err \<Rightarrow> Inl err | None \<Rightarrow> Inr (customPricing pc))"


subsection \<open>The provider and its rate table\<close>

record NodePrice =
  CPU :: string
  RAM :: string
  GPU :: string

text \<open>
  \<^verbatim>\<open>CustomProvider\<close>: \<open>Pricing\<close> is the rate table, a map that may be nil (\<open>None\<close>); the
  \<^verbatim>\<open>*NodePrice\<close> pointers the source stores in it are all results of \<^verbatim>\<open>&NodePrice{...}\<close>,
  so the table holds the records themselves. The cluster cache and the lock carry no
  data of the model.
\<close>

record CustomProvider =
  Pricing :: "(string \<rightharpoonup> NodePrice) option"
  SpotLabel :: string
  SpotLabelValue :: string
  GPULabel :: string
  GPULabelValue :: string
  Config :: ProviderConfig

text \<open>
  \<^verbatim>\<open>customProviderKey\<close>, the \<^verbatim>\<open>Key\<close> of this provider. \<open>Labels\<close> is only read, and a
  read of an absent key (or of a nil map) gives the empty string: \<open>labelOf\<close>.
\<close>

record customProviderKey =
  SpotLabel :: string
  SpotLabelValue :: string
  GPULabel :: string
  GPULabelValue :: string
  Labels :: "string \<rightharpoonup> string"

definition labelOf :: "customProviderKey \<Rightarrow> string \<Rightarrow> string" where
  "labelOf cpk l = (case Labels cpk l of None \<Rightarrow> [] | Some v \<Rightarrow> v)"

definition GPUType :: "customProviderKey \<Rightarrow> string" where
  "GPUType cpk = (case Labels cpk (customProviderKey.GPULabel cpk) of Some t \<Rightarrow> t | None \<Rightarrow> [])"

definition Features :: "customProviderKey \<Rightarrow> string" where
  "Features cpk =
     (if labelOf cpk (customProviderKey.SpotLabel cpk) \<noteq> [] \<and>
         labelOf cpk (customProviderKey.SpotLabel cpk) = customProviderKey.SpotLabelValue cpk
      then ''default,spot''
      else ''default'')"

text \<open>
  \<^verbatim>\<open>DownloadPricingData\<close> returns its error and the provider as it leaves it. A nil table
  is replaced by an empty one before the configuration is fetched, so this happens on
  the error path too.
\<close>

definition DownloadPricingData :: "CustomProvider \<Rightarrow> error option \<times> CustomProvider" where
  "DownloadPricingData cp =
     (let m = (case Pricing cp of None \<Rightarrow> Map.empty | Some t \<Rightarrow> t);
          cp1 = cp\<lparr>Pricing := Some m\<rparr>
      in case GetCustomPricingData (Config cp1) of
           Inl err \<Rightarrow> (Some err, cp1)
         | Inr p \<Rightarrow>
             (None,
              cp1\<lparr>CustomProvider.SpotLabel := CustomPricing.SpotLabel p,
                  CustomProvider.SpotLabelValue := CustomPricing.SpotLabelValue p,
                  CustomProvider.GPULabel := GpuLabel p,
                  CustomProvider.GPULabelValue := GpuLabelValue p,
                  Pricing := Some (m(
                    ''default'' \<mapsto>
                       \<lparr>CPU = CustomPricing.CPU p, RAM = CustomPricing.RAM p, GPU = []\<rparr>,
                    ''default,spot'' \<mapsto>
                       \<lparr>CPU = SpotCPU p, RAM = SpotRAM p, GPU = []\<rparr>,
                    ''default,gpu'' \<mapsto>
                       \<lparr>CPU = CustomPricing.CPU p, RAM = CustomPricing.RAM p,
                        GPU = CustomPricing.GPU p\<rparr>))\<rparr>))"

definition GetKey :: "CustomProvider \<Rightarrow> (string \<rightharpoonup> string) \<Rightarrow> customProviderKey" where
  "GetKey cp labels =
     \<lparr>SpotLabel = CustomProvider.SpotLabel cp,
      SpotLabelValue = CustomProvider.SpotLabelValue cp,
      GPULabel = CustomProvider.GPULabel cp,
      GPULabelValue = CustomProvider.GPULabelValue cp,
      Labels = labels\<rparr>"

text \<open>
  \<^verbatim>\<open>Node\<close> (declared outside the sources) with the four fields that \<^verbatim>\<open>NodePricing\<close>
  sets. \<open>nodePricingKey\<close> is the first part of \<^verbatim>\<open>NodePricing\<close>: the table key \<open>k\<close> and
  the GPU count. The reads \<^verbatim>\<open>cp.Pricing[k].CPU\<close> dereference the pointer that the table
  returns; for a key that is not in the table this is the nil pointer and the call
  panics.
\<close>

record Node =
  VCPUCost :: string
  RAMCost :: string
  GPUCost :: string
  GPU :: string

definition nodePricingKey :: "CustomProvider \<Rightarrow> customProviderKey \<Rightarrow> string \<times> string" where
  "nodePricingKey cp key =
     (let k = Features key;
          k = (if mapget (Pricing cp) k = None then ''default'' else k)
      in if GPUType key \<noteq> [] then (k @ '',gpu'', ''1'') else (k, []))"

definition NodePricing :: "CustomProvider \<Rightarrow> customProviderKey \<Rightarrow> panic + Node" where
  "NodePricing cp key =
     (let (k, gpuCount) = nodePricingKey cp key
      in case mapget (Pricing cp) k of
           None \<Rightarrow> Inl NilPointerDereference
         | Some np \<Rightarrow>
             Inr \<lparr>VCPUCost = NodePrice.CPU np, RAMCost = NodePrice.RAM np,
                  GPUCost = NodePrice.GPU np, GPU = gpuCount\<rparr>)"

subsection \<open>Updating the configuration\<close>








subsection \<open>Load-balancer pricing\<close>

text \<open>
  A \<^verbatim>\<open>float64\<close> is a finite number, an infinity or NaN; the two zeros, which the
  comparison \<^verbatim>\<open>==\<close> of Go does not tell apart, are one value. With an infinity or NaN the
  arithmetic follows IEEE 754: NaN propagates, an infinity times zero and the sum of
  opposite infinities are NaN, and every comparison with NaN is false. The result of an
  operation on two finite numbers is rounded to the format and may overflow to an
  infinity: \<open>rnd\<close> is that rounding, an argument of the model. Only where IEEE 754 gives
  the exact result whatever the operands (the sum with zero, the product with zero or
  with one) the model does not round.
\<close>

datatype float64 = Finite real | PosInf | NegInf | NaN

type_synonym rounding = "real \<Rightarrow> float64"

fun fneg :: "float64 \<Rightarrow> float64" where
  "fneg (Finite x) = Finite (- x)"
| "fneg PosInf = NegInf"
| "fneg NegInf = PosInf"
| "fneg NaN = NaN"

fun fadd :: "rounding \<Rightarrow> float64 \<Rightarrow> float64 \<Rightarrow> float64" where
  "fadd rnd (Finite x) (Finite y) =
     (if y = 0 then Finite x else if x = 0 then Finite y else rnd (x + y))"
| "fadd rnd NaN b = NaN"
| "fadd rnd a NaN = NaN"
| "fadd rnd PosInf NegInf = NaN"
| "fadd rnd NegInf PosInf = NaN"
| "fadd rnd PosInf b = PosInf"
| "fadd rnd NegInf b = NegInf"
| "fadd rnd (Finite x) b = b"

definition fsub :: "rounding \<Rightarrow> float64 \<Rightarrow> float64 \<Rightarrow> float64" where
  "fsub rnd a b = fadd rnd a (fneg b)"

definition infTimes :: "float64 \<Rightarrow> real \<Rightarrow> float64" where
  "infTimes i y = (if y = 0 then NaN else if 0 < y then i else fneg i)"

fun fmul :: "rounding \<Rightarrow> float64 \<Rightarrow> float64 \<Rightarrow> float64" where
  "fmul rnd (Finite x) (Finite y) =
     (if x = 0 \<or> y = 0 then Finite 0
      else if y = 1 then Finite x
      else if x = 1 then Finite y
      else rnd (x * y))"
| "fmul rnd NaN b = NaN"
| "fmul rnd a NaN = NaN"
| "fmul rnd PosInf (Finite y) = infTimes PosInf y"
| "fmul rnd NegInf (Finite y) = infTimes NegInf y"
| "fmul rnd (Finite x) b = infTimes b x"
| "fmul rnd PosInf b = b"
| "fmul rnd NegInf b = fneg b"

fun fless :: "float64 \<Rightarrow> float64 \<Rightarrow> bool" where
  "fless (Finite x) (Finite y) = (x < y)"
| "fless NaN b = False"
| "fless a NaN = False"
| "fless a NegInf = False"
| "fless PosInf b = False"
| "fless NegInf b = True"
| "fless (Finite x) PosInf = True"

text \<open>
  \<^verbatim>\<open>LoadBalancer\<close> (declared outside the sources) with the field that the source sets.
  \<open>lbTotalCost\<close> is the \<^verbatim>\<open>if\<close> of \<^verbatim>\<open>LoadBalancerPricing\<close> that computes \<^verbatim>\<open>totalCost\<close>, as
  a function of the numbers it reads. \<^verbatim>\<open>strconv.ParseFloat(s, 64)\<close> belongs to the Go
  library and is an argument of the model.
\<close>

record LoadBalancer =
  Cost :: float64

definition lbTotalCost ::
  "rounding \<Rightarrow> float64 \<Rightarrow> float64 \<Rightarrow> float64 \<Rightarrow> float64 \<Rightarrow> float64 \<Rightarrow> float64" where
  "lbTotalCost rnd fffrc afrc lbidc numForwardingRules dataIngressGB =
     (if fless numForwardingRules (Finite 5)
      then fadd rnd (fmul rnd fffrc numForwardingRules) (fmul rnd lbidc dataIngressGB)
      else fadd rnd
             (fadd rnd (fmul rnd fffrc (Finite 5))
                       (fmul rnd afrc (fsub rnd numForwardingRules (Finite 5))))
             (fmul rnd lbidc dataIngressGB))"

definition LoadBalancerPricing ::
  "rounding \<Rightarrow> (string \<Rightarrow> error + float64) \<Rightarrow> CustomProvider \<Rightarrow> error + LoadBalancer" where
  "LoadBalancerPricing rnd ParseFloat cp =
     (case GetCustomPricingData (Config cp) of
        Inl err \<Rightarrow> Inl err
      | Inr cpricing \<Rightarrow>
          (case ParseFloat (FirstFiveForwardingRulesCost cpricing) of
             Inl err \<Rightarrow> Inl err
           | Inr fffrc \<Rightarrow>
               (case ParseFloat (AdditionalForwardingRuleCost cpricing) of
                  Inl err \<Rightarrow> Inl err
                | Inr afrc \<Rightarrow>
                    (case ParseFloat (LBIngressDataCost cpricing) of
                       Inl err \<Rightarrow> Inl err
                     | Inr lbidc \<Rightarrow>
                         (let numForwardingRules = Finite 1;
                              dataIngressGB = Finite 0
                          in Inr \<lparr>Cost = lbTotalCost rnd fffrc afrc lbidc
                                            numForwardingRules dataIngressGB\<rparr>)))))"

text \<open>
  The tiered formula as the specification writes it,
  \<open>cost = rate1 * min(rules, 5) + rate2 * max(rules - 5, 0) + ingressRate * dataGB\<close>,
  on the three rates as \<^verbatim>\<open>float64\<close> values and with the arithmetic of \<^verbatim>\<open>float64\<close>; the
  number of rules and the data volume are plain numbers.
\<close>

definition LoadBalancerCost_spec ::
  "rounding \<Rightarrow> float64 \<Rightarrow> float64 \<Rightarrow> float64 \<Rightarrow> real \<Rightarrow> real \<Rightarrow> float64" where
  "LoadBalancerCost_spec rnd rate1 rate2 ingressRate rules dataGB =
     fadd rnd
       (fadd rnd (fmul rnd rate1 (Finite (min rules 5)))
                 (fmul rnd rate2 (Finite (max (rules - 5) 0))))
       (fmul rnd ingressRate (Finite dataGB))"

text \<open>
  For the examples: \<^verbatim>\<open>strconv.ParseFloat\<close> on six strings. The three decimals denote
  numbers that are \<^verbatim>\<open>float64\<close> values, \<^verbatim>\<open>"Inf"\<close> and \<^verbatim>\<open>"NaN"\<close> are accepted and denote the
  positive infinity and NaN, and \<^verbatim>\<open>"ten"\<close> is a syntax error. The examples use no other
  string, and \<^verbatim>\<open>LoadBalancerPricing\<close> asks for the three rate fields only, so what this
  function returns elsewhere plays no role.
\<close>

definition ParseFloat_sample :: "string \<Rightarrow> error + float64" where
  "ParseFloat_sample s =
     (if s = ''0.5'' then Inr (Finite (1 / 2))
      else if s = ''0.25'' then Inr (Finite (1 / 4))
      else if s = ''0.125'' then Inr (Finite (1 / 8))
      else if s = ''Inf'' then Inr PosInf
      else if s = ''NaN'' then Inr NaN
      else Inl (Error (''strconv.ParseFloat: parsing '' @ [CHR 0x22] @ s @ [CHR 0x22] @
                       '': invalid syntax'')))"

subsection \<open>Notions and sample values for the properties of the provider\<close>

text \<open>
  \<open>rebuilt m p\<close> is the table \<open>m\<close> after the three assignments of
  \<^verbatim>\<open>DownloadPricingData\<close> from the configuration \<open>p\<close>, and \<open>pricedNode np n\<close> is the
  \<^verbatim>\<open>Node\<close> that \<^verbatim>\<open>NodePricing\<close> returns for the table entry \<open>np\<close> and the GPU count \<open>n\<close>.
  The sample values are a rate
  card, a provider holding it (with a given table and configuration), the same provider
  with a configuration whose fetch fails, a rate card whose load-balancer rates are
  \<^verbatim>\<open>float64\<close> values, the key of a node without labels, and the key of a node that
  carries both the spot label and the GPU label of the sample rate card.
\<close>

definition rebuilt :: "(string \<rightharpoonup> NodePrice) \<Rightarrow> CustomPricing \<Rightarrow> (string \<rightharpoonup> NodePrice)" where
  "rebuilt m p =
     m(''default'' \<mapsto> \<lparr>CPU = CustomPricing.CPU p, RAM = CustomPricing.RAM p, GPU = []\<rparr>,
       ''default,spot'' \<mapsto> \<lparr>CPU = SpotCPU p, RAM = SpotRAM p, GPU = []\<rparr>,
       ''default,gpu'' \<mapsto> \<lparr>CPU = CustomPricing.CPU p, RAM = CustomPricing.RAM p,
                             GPU = CustomPricing.GPU p\<rparr>)"


abbreviation sampleRates :: CustomPricing where
  "sampleRates \<equiv>
     \<lparr>CustomPricing.CPU = ''0.05'', CustomPricing.RAM = ''0.01'', CustomPricing.GPU = ''0.90'',
      SpotCPU = ''0.015'', SpotRAM = ''0.002'',
      CustomPricing.SpotLabel = ''lifecycle'', CustomPricing.SpotLabelValue = ''spot'',
      GpuLabel = ''accelerator'', GpuLabelValue = ''true'',
      Storage = ''0.0001'', ZoneNetworkEgress = ''0.01'', RegionNetworkEgress = ''0.01'',
      InternetNetworkEgress = ''0.12'', FirstFiveForwardingRulesCost = ''0.025'',
      AdditionalForwardingRuleCost = ''0.010'', LBIngressDataCost = ''0.01'',
      ClusterName = ''prod''\<rparr>"

abbreviation sampleProvider :: "(string \<rightharpoonup> NodePrice) option \<Rightarrow> CustomPricing \<Rightarrow> CustomProvider" where
  "sampleProvider t c \<equiv>
     \<lparr>Pricing = t, CustomProvider.SpotLabel = [], CustomProvider.SpotLabelValue = [],
      CustomProvider.GPULabel = [], CustomProvider.GPULabelValue = [],
      Config = \<lparr>customPricing = c, loadError = None\<rparr>\<rparr>"

abbreviation failingProvider :: "(string \<rightharpoonup> NodePrice) option \<Rightarrow> CustomPricing \<Rightarrow> CustomProvider" where
  "failingProvider t c \<equiv>
     \<lparr>Pricing = t, CustomProvider.SpotLabel = [], CustomProvider.SpotLabelValue = [],
      CustomProvider.GPULabel = [], CustomProvider.GPULabelValue = [],
      Config = \<lparr>customPricing = c, loadError = Some (Error ''configuration unavailable'')\<rparr>\<rparr>"

abbreviation dyadicRates :: CustomPricing where
  "dyadicRates \<equiv>
     sampleRates\<lparr>FirstFiveForwardingRulesCost := ''0.5'',
                 AdditionalForwardingRuleCost := ''0.25'',
                 LBIngressDataCost := ''0.125''\<rparr>"


abbreviation spotGpuKey :: "CustomProvider \<Rightarrow> customProviderKey" where
  "spotGpuKey cp \<equiv> GetKey cp [''lifecycle'' \<mapsto> ''spot'', ''accelerator'' \<mapsto> ''nvidia-t4'']"

section \<open>Properties of the cluster registry\<close>

lemma Split_not_Nil: "Split s c \<noteq> []"
  by (induction s) (auto split: list.splits)

lemma Split_no_sep: "c \<notin> set s \<Longrightarrow> Split s c = [s]"
  by (induction s) auto

lemma takeWhile_no_sep: "c \<notin> set s \<Longrightarrow> takeWhile (\<lambda>x. x \<noteq> c) s = s"
  by (induction s) auto

lemma Split_takeWhile_dropWhile:
  "c \<in> set s \<Longrightarrow>
   Split s c = takeWhile (\<lambda>x. x \<noteq> c) s # Split (tl (dropWhile (\<lambda>x. x \<noteq> c) s)) c"
proof (induction s)
  case Nil
  then show ?case by simp
next
  case (Cons x xs)
  show ?case
  proof (cases "x = c")
    case True
    then show ?thesis by simp
  next
    case False
    with Cons.prems have "c \<in> set xs" by simp
    with Cons.IH False show ?thesis by simp
  qed
qed

lemma Split_hd: "hd (Split s c) = takeWhile (\<lambda>x. x \<noteq> c) s"
proof (cases "c \<in> set s")
  case True
  then show ?thesis by (simp add: Split_takeWhile_dropWhile)
next
  case False
  then show ?thesis by (simp add: Split_no_sep takeWhile_no_sep)
qed

lemma Split_two:
  "c \<in> set s \<Longrightarrow>
   \<exists>rest. Split s c =
     takeWhile (\<lambda>x. x \<noteq> c) s #
     takeWhile (\<lambda>x. x \<noteq> c) (tl (dropWhile (\<lambda>x. x \<noteq> c) s)) # rest"
proof -
  assume a: "c \<in> set s"
  let ?t = "tl (dropWhile (\<lambda>x. x \<noteq> c) s)"
  obtain p ps where p: "Split ?t c = p # ps"
    using Split_not_Nil [of ?t c] by (cases "Split ?t c") auto
  have "p = takeWhile (\<lambda>x. x \<noteq> c) ?t"
    using Split_hd [of ?t c] p by simp
  with a p show ?thesis by (simp add: Split_takeWhile_dropWhile)
qed

lemma SplitNameID_eq:
  "SplitNameID s =
     Inr (if CHR ''/'' \<notin> set s then (s, [])
          else (takeWhile (\<lambda>x. x \<noteq> CHR ''/'') (tl (dropWhile (\<lambda>x. x \<noteq> CHR ''/'') s)),
                takeWhile (\<lambda>x. x \<noteq> CHR ''/'') s))"
proof (cases "CHR ''/'' \<in> set s")
  case True
  from Split_two [OF True] obtain rest where
    "Split s CHR ''/'' =
       takeWhile (\<lambda>x. x \<noteq> CHR ''/'') s #
       takeWhile (\<lambda>x. x \<noteq> CHR ''/'') (tl (dropWhile (\<lambda>x. x \<noteq> CHR ''/'') s)) # rest"
    by blast
  with True show ?thesis by (simp add: SplitNameID_def Contains_def)
next
  case False
  then show ?thesis by (simp add: SplitNameID_def Contains_def)
qed

lemma one_sep_rest:
  "c \<in> set s \<Longrightarrow> count_list s c \<le> 1 \<Longrightarrow> c \<notin> set (tl (dropWhile (\<lambda>x. x \<noteq> c) s))"
proof (induction s)
  case Nil
  then show ?case by simp
next
  case (Cons x xs)
  show ?case
  proof (cases "x = c")
    case True
    with Cons.prems have "count_list xs c = 0" by simp
    then have "c \<notin> set xs" by (simp add: count_list_0_iff)
    with True show ?thesis by simp
  next
    case False
    with Cons show ?thesis by simp
  qed
qed

text \<open>
  C2 (as the code has it). \<^verbatim>\<open>SplitNameID\<close> never panics. Without a \<open>/\<close> it returns the
  whole string as the id with an empty name. With a \<open>/\<close> it splits on every \<open>/\<close>: the name
  is the text before the first \<open>/\<close>, the id is the text between the first \<open>/\<close> and the
  next one (or the end of the string). When the string has at most one \<open>/\<close> this is the
  specification's reading: the id is everything after the first \<open>/\<close>.
\<close>

theorem SplitNameID_segments:
  "SplitNameID nameID =
     Inr (if CHR ''/'' \<notin> set nameID then (nameID, [])
          else (takeWhile (\<lambda>x. x \<noteq> CHR ''/'')
                  (tl (dropWhile (\<lambda>x. x \<noteq> CHR ''/'') nameID)),
                takeWhile (\<lambda>x. x \<noteq> CHR ''/'') nameID)) \<and>
   (count_list nameID CHR ''/'' \<le> 1 \<longrightarrow> SplitNameID nameID = Inr (SplitNameID_spec nameID))"
proof (intro conjI impI)
  show "SplitNameID nameID =
     Inr (if CHR ''/'' \<notin> set nameID then (nameID, [])
          else (takeWhile (\<lambda>x. x \<noteq> CHR ''/'')
                  (tl (dropWhile (\<lambda>x. x \<noteq> CHR ''/'') nameID)),
                takeWhile (\<lambda>x. x \<noteq> CHR ''/'') nameID))"
    by (rule SplitNameID_eq)
next
  assume one: "count_list nameID CHR ''/'' \<le> 1"
  show "SplitNameID nameID = Inr (SplitNameID_spec nameID)"
  proof (cases "CHR ''/'' \<in> set nameID")
    case True
    from one_sep_rest [OF True one]
    have "takeWhile (\<lambda>x. x \<noteq> CHR ''/'') (tl (dropWhile (\<lambda>x. x \<noteq> CHR ''/'') nameID)) =
          tl (dropWhile (\<lambda>x. x \<noteq> CHR ''/'') nameID)"
      by (rule takeWhile_no_sep)
    with True show ?thesis
      unfolding SplitNameID_eq SplitNameID_spec_def by (simp only: if_False not_True_eq_False simp_thms)
  next
    case False
    then show ?thesis
      unfolding SplitNameID_eq SplitNameID_spec_def by (simp only: if_True simp_thms)
  qed
qed


theorem SplitNameID_segments_witness:
  "count_list ''prod/c1'' CHR ''/'' \<le> 1 \<and>
   SplitNameID ''prod/c1'' = Inr (''c1'', ''prod'') \<and>
   SplitNameID ''prod/c1'' = Inr (SplitNameID_spec ''prod/c1'')"
  using SplitNameID_segments [of "''prod/c1''"] by (simp add: SplitNameID_spec_def)

text \<open>
  C2 as the specification states it fails on a string with two \<open>/\<close>: for \<open>a/b/c\<close> the
  specification's id is \<open>b/c\<close>, the code returns \<open>b\<close>.
\<close>

theorem SplitNameID_first_slash_counterexample:
  "SplitNameID ''a/b/c'' = Inr (''b'', ''a'') \<and>
   SplitNameID_spec ''a/b/c'' = (''b/c'', ''a'') \<and>
   SplitNameID ''a/b/c'' \<noteq> Inr (SplitNameID_spec ''a/b/c'')"
  by (simp add: SplitNameID_def SplitNameID_spec_def Contains_def)

lemma Split_append_sep: "c \<notin> set n \<Longrightarrow> Split (n @ c # r) c = n # Split r c"
  by (induction n) auto

lemma SplitNameID_no_slash: "CHR ''/'' \<notin> set s \<Longrightarrow> SplitNameID s = Inr (s, [])"
  by (simp add: SplitNameID_def Contains_def)

lemma SplitNameID_join:
  assumes "CHR ''/'' \<notin> set n" and "CHR ''/'' \<notin> set i"
  shows "SplitNameID (n @ CHR ''/'' # i) = Inr (i, n)"
proof -
  have "Split (n @ CHR ''/'' # i) CHR ''/'' = [n, i]"
    using assms by (simp add: Split_append_sep Split_no_sep)
  then show ?thesis by (simp add: SplitNameID_def Contains_def)
qed

text \<open>
  C3 (as the code has it). For a cluster id present in the registry, when neither the
  cluster's name nor the id itself contains a \<open>/\<close>, \<^verbatim>\<open>SplitNameID\<close> applied to
  \<^verbatim>\<open>NameIDFor(id)\<close> returns the original pair of id and name.
\<close>

theorem SplitNameID_NameIDFor_roundtrip:
  assumes "mapget (clusters pcm) clusterID = Some a"
    and "CHR ''/'' \<notin> set (Name (h ! a))"
    and "CHR ''/'' \<notin> set clusterID"
  shows "SplitNameID (NameIDFor pcm h clusterID) = Inr (clusterID, Name (h ! a))"
proof (cases "Name (h ! a) = []")
  case True
  with assms(1) have "NameIDFor pcm h clusterID = clusterID"
    by (simp add: NameIDFor_def)
  with True assms(3) show ?thesis by (simp add: SplitNameID_no_slash)
next
  case False
  with assms(1) have "NameIDFor pcm h clusterID = Name (h ! a) @ CHR ''/'' # clusterID"
    by (simp add: NameIDFor_def)
  with assms(2,3) show ?thesis by (simp add: SplitNameID_join)
qed

theorem SplitNameID_NameIDFor_roundtrip_witness:
  "mapget (clusters \<lparr>clusters = Some [''c1'' \<mapsto> 0], localCluster = Map.empty\<rparr>) ''c1'' = Some 0 \<and>
   CHR ''/'' \<notin> set (Name ([\<lparr>ID = ''c1'', Name = ''prod'', Profile = [], Provider = [],
                               Provisioner = []\<rparr>] ! 0)) \<and>
   CHR ''/'' \<notin> set ''c1'' \<and>
   SplitNameID (NameIDFor \<lparr>clusters = Some [''c1'' \<mapsto> 0], localCluster = Map.empty\<rparr>
       [\<lparr>ID = ''c1'', Name = ''prod'', Profile = [], Provider = [], Provisioner = []\<rparr>] ''c1'')
     = Inr (''c1'', ''prod'')"
  using SplitNameID_NameIDFor_roundtrip
    [of "\<lparr>clusters = Some [''c1'' \<mapsto> 0], localCluster = Map.empty\<rparr>" "''c1''" 0
        "[\<lparr>ID = ''c1'', Name = ''prod'', Profile = [], Provider = [], Provisioner = []\<rparr>]"]
  by (simp add: mapget_def)

text \<open>
  C3 as the specification states it (only the name is required to be free of \<open>/\<close>)
  fails for a cluster whose id contains a \<open>/\<close>: the cluster \<open>us/east\<close> named \<open>prod\<close> is
  encoded as \<open>prod/us/east\<close> and decoded as id \<open>us\<close>.
\<close>

theorem SplitNameID_NameIDFor_roundtrip_counterexample:
  "mapget (clusters \<lparr>clusters = Some [''us/east'' \<mapsto> 0], localCluster = Map.empty\<rparr>) ''us/east''
     = Some 0 \<and>
   CHR ''/'' \<notin> set (Name ([\<lparr>ID = ''us/east'', Name = ''prod'', Profile = [], Provider = [],
                               Provisioner = []\<rparr>] ! 0)) \<and>
   SplitNameID (NameIDFor \<lparr>clusters = Some [''us/east'' \<mapsto> 0], localCluster = Map.empty\<rparr>
       [\<lparr>ID = ''us/east'', Name = ''prod'', Profile = [], Provider = [], Provisioner = []\<rparr>]
       ''us/east'')
     = Inr (''us'', ''prod'') \<and>
   SplitNameID (NameIDFor \<lparr>clusters = Some [''us/east'' \<mapsto> 0], localCluster = Map.empty\<rparr>
       [\<lparr>ID = ''us/east'', Name = ''prod'', Profile = [], Provider = [], Provisioner = []\<rparr>]
       ''us/east'')
     \<noteq> Inr (''us/east'', ''prod'')"
  by (simp add: mapget_def NameIDFor_def SplitNameID_def Contains_def)

text \<open>
  C8. For a cluster id absent from the registry snapshot, \<^verbatim>\<open>NameFor\<close> returns the empty
  string and \<^verbatim>\<open>NameIDFor\<close> returns the id unchanged. Both are plain strings: the lookups
  have no error result and no panicking branch.
\<close>

theorem unknown_cluster_names:
  assumes "mapget (clusters pcm) clusterID = None"
  shows "NameFor pcm h clusterID = [] \<and> NameIDFor pcm h clusterID = clusterID"
  using assms by (simp add: NameFor_def NameIDFor_def)

theorem unknown_cluster_names_witness:
  "mapget (clusters \<lparr>clusters = Some [''c1'' \<mapsto> 0], localCluster = Map.empty\<rparr>) ''c2'' = None \<and>
   NameFor \<lparr>clusters = Some [''c1'' \<mapsto> 0], localCluster = Map.empty\<rparr>
     [\<lparr>ID = ''c1'', Name = ''prod'', Profile = [], Provider = [], Provisioner = []\<rparr>] ''c2'' = [] \<and>
   NameIDFor \<lparr>clusters = Some [''c1'' \<mapsto> 0], localCluster = Map.empty\<rparr>
     [\<lparr>ID = ''c1'', Name = ''prod'', Profile = [], Provider = [], Provisioner = []\<rparr>] ''c2'' = ''c2''"
  using unknown_cluster_names
    [of "\<lparr>clusters = Some [''c1'' \<mapsto> 0], localCluster = Map.empty\<rparr>" "''c2''"
        "[\<lparr>ID = ''c1'', Name = ''prod'', Profile = [], Provider = [], Provisioner = []\<rparr>]"]
  by (simp add: mapget_def)

text \<open>
  C10. For a cluster id absent from the registry snapshot, \<^verbatim>\<open>InfoFor\<close> returns the nil
  pointer and allocates nothing. For a present id it returns a pointer to a new record:
  the address was not allocated before the call (so it differs from the registry's own
  pointer), the new record has the fields of the registry's record, and no record that
  existed before is changed. Hence the result is nil exactly when the id is absent.
\<close>

theorem InfoFor_nil_or_fresh_clone:
  "(mapget (clusters pcm) clusterID = None \<longrightarrow> InfoFor pcm h clusterID = (None, h)) \<and>
   (\<forall>a. mapget (clusters pcm) clusterID = Some a \<and> a < length h \<longrightarrow>
      (\<exists>b h'. InfoFor pcm h clusterID = (Some b, h') \<and>
         \<not> b < length h \<and> b \<noteq> a \<and> b < length h' \<and>
         h' ! b = h ! a \<and>
         (\<forall>c. c < length h \<longrightarrow> h' ! c = h ! c))) \<and>
   (fst (InfoFor pcm h clusterID) = None \<longleftrightarrow> mapget (clusters pcm) clusterID = None)"
  by (auto simp: InfoFor_def Clone_def alloc_def nth_append split: option.splits)

theorem InfoFor_nil_or_fresh_clone_witness:
  "mapget (clusters \<lparr>clusters = Some [''c1'' \<mapsto> 0], localCluster = Map.empty\<rparr>) ''c2'' = None \<and>
   InfoFor \<lparr>clusters = Some [''c1'' \<mapsto> 0], localCluster = Map.empty\<rparr>
     [\<lparr>ID = ''c1'', Name = ''prod'', Profile = [], Provider = [], Provisioner = []\<rparr>] ''c2''
     = (None, [\<lparr>ID = ''c1'', Name = ''prod'', Profile = [], Provider = [], Provisioner = []\<rparr>]) \<and>
   mapget (clusters \<lparr>clusters = Some [''c1'' \<mapsto> 0], localCluster = Map.empty\<rparr>) ''c1'' = Some 0 \<and>
   (0::nat) < length [\<lparr>ID = ''c1'', Name = ''prod'', Profile = [], Provider = [], Provisioner = []\<rparr>] \<and>
   InfoFor \<lparr>clusters = Some [''c1'' \<mapsto> 0], localCluster = Map.empty\<rparr>
     [\<lparr>ID = ''c1'', Name = ''prod'', Profile = [], Provider = [], Provisioner = []\<rparr>] ''c1''
     = (Some 1, [\<lparr>ID = ''c1'', Name = ''prod'', Profile = [], Provider = [], Provisioner = []\<rparr>,
                 \<lparr>ID = ''c1'', Name = ''prod'', Profile = [], Provider = [], Provisioner = []\<rparr>])"
  using InfoFor_nil_or_fresh_clone
    [of "\<lparr>clusters = Some [''c1'' \<mapsto> 0], localCluster = Map.empty\<rparr>" "''c2''"
        "[\<lparr>ID = ''c1'', Name = ''prod'', Profile = [], Provider = [], Provisioner = []\<rparr>]"]
    InfoFor_nil_or_fresh_clone
    [of "\<lparr>clusters = Some [''c1'' \<mapsto> 0], localCluster = Map.empty\<rparr>" "''c1''"
        "[\<lparr>ID = ''c1'', Name = ''prod'', Profile = [], Provider = [], Provisioner = []\<rparr>]"]
  by (simp add: mapget_def InfoFor_def Clone_def alloc_def)

lemma Retry_all_fail:
  "0 < n \<Longrightarrow> (\<And>j. j < n \<Longrightarrow> snd (f (i + j)) \<noteq> None) \<Longrightarrow>
   \<exists>r e. Retry f n i = (QueryResults r, Some e)"
proof (induction n arbitrary: i)
  case 0
  then show ?case by simp
next
  case (Suc n)
  from Suc.prems(2) [of 0] obtain r e where fi: "f i = (r, Some e)"
    by (cases "f i") auto
  show ?case
  proof (cases "n = 0")
    case True
    with fi show ?thesis by simp
  next
    case False
    have "\<And>j. j < n \<Longrightarrow> snd (f (Suc i + j)) \<noteq> None"
      using Suc.prems(2) [of "Suc _"] by simp
    with False Suc.IH [of "Suc i"] obtain r' e' where "Retry f n (Suc i) = (QueryResults r', Some e')"
      by auto
    with fi False show ?thesis by simp
  qed
qed

lemma refreshClusters_on_error:
  "loadClusters w pcm h = ((m, Some e), h') \<Longrightarrow> refreshClusters w pcm h = (pcm, h')"
  by (simp add: refreshClusters_def)

text \<open>
  C5. Whenever \<^verbatim>\<open>loadClusters\<close> returns an error, \<^verbatim>\<open>refreshClusters\<close> leaves the registry
  as it was. When each of the 6 attempts of the query fails, \<^verbatim>\<open>loadClusters\<close> returns an
  error and no map, without allocating anything, so the refresh changes nothing: the
  snapshot after the failed refresh is the snapshot before it.
\<close>

theorem failed_refresh_keeps_snapshot:
  "(\<forall>m e h'. loadClusters w pcm h = ((m, Some e), h') \<longrightarrow> refreshClusters w pcm h = (pcm, h')) \<and>
   ((\<forall>i<LoadRetries.
       snd (QuerySync w (clusterInfoQuery (if IsThanos w then QueryOffset w else [])) i) \<noteq> None) \<longrightarrow>
    (\<exists>e. loadClusters w pcm h = ((None, Some e), h)) \<and> refreshClusters w pcm h = (pcm, h))"
proof (intro conjI allI impI)
  fix m e h'
  assume "loadClusters w pcm h = ((m, Some e), h')"
  then show "refreshClusters w pcm h = (pcm, h')" by (rule refreshClusters_on_error)
next
  let ?f = "\<lambda>i. QuerySync w (clusterInfoQuery (if IsThanos w then QueryOffset w else [])) i"
  assume fail: "\<forall>i<LoadRetries. snd (?f i) \<noteq> None"
  have "\<exists>r e. Retry ?f LoadRetries 0 = (QueryResults r, Some e)"
    using fail by (intro Retry_all_fail) (simp_all add: LoadRetries_def)
  then obtain r e where "Retry ?f LoadRetries 0 = (QueryResults r, Some e)" by blast
  then have l: "loadClusters w pcm h = ((None, Some e), h)"
    by (simp add: loadClusters_def)
  then show "\<exists>e. loadClusters w pcm h = ((None, Some e), h)" ..
  from l show "refreshClusters w pcm h = (pcm, h)" by (rule refreshClusters_on_error)
qed

theorem failed_refresh_keeps_snapshot_witness:
  "refreshClusters
     \<lparr>GetClusterID = ''c1'', IsThanos = False, QueryOffset = [],
      QuerySync = (\<lambda>q i. ([], Some (Error ''backend unavailable'')))\<rparr>
     \<lparr>clusters = Some [''c1'' \<mapsto> 0], localCluster = Map.empty\<rparr>
     [\<lparr>ID = ''c1'', Name = ''prod'', Profile = [], Provider = [], Provisioner = []\<rparr>]
   = (\<lparr>clusters = Some [''c1'' \<mapsto> 0], localCluster = Map.empty\<rparr>,
      [\<lparr>ID = ''c1'', Name = ''prod'', Profile = [], Provider = [], Provisioner = []\<rparr>])"
  using failed_refresh_keeps_snapshot
    [where w = "\<lparr>GetClusterID = ''c1'', IsThanos = False, QueryOffset = [],
                  QuerySync = (\<lambda>q i. ([], Some (Error ''backend unavailable'')))\<rparr>"
       and pcm = "\<lparr>clusters = Some [''c1'' \<mapsto> 0], localCluster = Map.empty\<rparr>"
       and h = "[\<lparr>ID = ''c1'', Name = ''prod'', Profile = [], Provider = [], Provisioner = []\<rparr>]"]
  by simp

lemma loadQueryResults_skip:
  "\<not> validRow r \<Longrightarrow> loadQueryResults (r # qr) m h = loadQueryResults qr m h"
  by (auto simp: validRow_def GetString_def split: option.splits)

lemma loadQueryResults_valid:
  "validRow r \<Longrightarrow>
   loadQueryResults (r # qr) m h =
   loadQueryResults qr (m(label r ''id'' \<mapsto> length h)) (h @ [rowInfo r])"
  by (auto simp: validRow_def GetString_def rowInfo_def label_def alloc_def split: option.splits)

lemma loadQueryResults_filter:
  "loadQueryResults qr m h = loadQueryResults (filter validRow qr) m h"
proof (induction qr arbitrary: m h)
  case Nil
  then show ?case by simp
next
  case (Cons r qr)
  show ?case
  proof (cases "validRow r")
    case True
    have "loadQueryResults (r # qr) m h =
          loadQueryResults qr (m(label r ''id'' \<mapsto> length h)) (h @ [rowInfo r])"
      by (rule loadQueryResults_valid [OF True])
    also have "\<dots> = loadQueryResults (filter validRow qr) (m(label r ''id'' \<mapsto> length h)) (h @ [rowInfo r])"
      by (rule Cons.IH)
    also have "\<dots> = loadQueryResults (r # filter validRow qr) m h"
      by (rule loadQueryResults_valid [OF True, symmetric])
    finally show ?thesis using True by simp
  next
    case False
    have "loadQueryResults (r # qr) m h = loadQueryResults qr m h"
      by (rule loadQueryResults_skip [OF False])
    also have "\<dots> = loadQueryResults (filter validRow qr) m h"
      by (rule Cons.IH)
    finally show ?thesis using False by simp
  qed
qed

lemma applyRow_valid: "validRow r \<Longrightarrow> applyRow r v = v(label r ''id'' \<mapsto> rowInfo r)"
  by (simp add: applyRow_def)

lemma applyRow_invalid: "\<not> validRow r \<Longrightarrow> applyRow r v = v"
  by (simp add: applyRow_def)

lemma snapshot_alloc:
  "heap_ok m h \<Longrightarrow> snapshot (m(i \<mapsto> length h)) (h @ [ci]) = (snapshot m h)(i \<mapsto> ci)"
  by (rule ext) (auto simp: snapshot_def heap_ok_def nth_append split: option.splits)

lemma heap_ok_alloc: "heap_ok m h \<Longrightarrow> heap_ok (m(i \<mapsto> length h)) (h @ [ci])"
  by (auto simp: heap_ok_def less_Suc_eq)

lemma loadQueryResults_fold:
  "heap_ok m h \<Longrightarrow> loadQueryResults qr m h = (m', h') \<Longrightarrow>
   heap_ok m' h' \<and> snapshot m' h' = fold applyRow qr (snapshot m h)"
proof (induction qr arbitrary: m h)
  case Nil
  then show ?case by simp
next
  case (Cons r qr)
  show ?case
  proof (cases "validRow r")
    case True
    from Cons.prems(2) have
      "loadQueryResults qr (m(label r ''id'' \<mapsto> length h)) (h @ [rowInfo r]) = (m', h')"
      by (simp only: loadQueryResults_valid [OF True])
    from Cons.IH [OF heap_ok_alloc [OF Cons.prems(1)] this]
    have ok: "heap_ok m' h'"
      and sn: "snapshot m' h' =
        fold applyRow qr (snapshot (m(label r ''id'' \<mapsto> length h)) (h @ [rowInfo r]))"
      by blast+
    have "snapshot (m(label r ''id'' \<mapsto> length h)) (h @ [rowInfo r]) = applyRow r (snapshot m h)"
      by (simp only: snapshot_alloc [OF Cons.prems(1)] applyRow_valid [OF True])
    with sn have "snapshot m' h' = fold applyRow qr (applyRow r (snapshot m h))"
      by (simp only:)
    with ok show ?thesis by simp
  next
    case False
    from Cons.prems(2) have "loadQueryResults qr m h = (m', h')"
      by (simp only: loadQueryResults_skip [OF False])
    from Cons.IH [OF Cons.prems(1) this]
    show ?thesis using False by (simp add: applyRow_invalid)
  qed
qed

lemma fold_applyRow_dom:
  "dom (fold applyRow qr v) = dom v \<union> {label r ''id'' | r. r \<in> set qr \<and> validRow r}"
  by (induction qr arbitrary: v) (auto simp: applyRow_def)

lemma fold_applyRow_val:
  "fold applyRow qr v k = Some ci \<Longrightarrow>
   v k = Some ci \<or> (\<exists>r\<in>set qr. validRow r \<and> label r ''id'' = k \<and> ci = rowInfo r)"
proof (induction qr arbitrary: v)
  case Nil
  then show ?case by simp
next
  case (Cons r qr)
  from Cons.IH [of "applyRow r v"] Cons.prems
  have "applyRow r v k = Some ci \<or> (\<exists>r\<in>set qr. validRow r \<and> label r ''id'' = k \<and> ci = rowInfo r)"
    by simp
  then show ?case
    by (auto simp: applyRow_def split: if_splits)
qed

lemma fold_applyRow_other:
  "(\<And>r. r \<in> set qr \<Longrightarrow> validRow r \<Longrightarrow> label r ''id'' \<noteq> k) \<Longrightarrow> fold applyRow qr v k = v k"
  by (induction qr arbitrary: v) (auto simp: applyRow_def)

lemma fold_applyRow_last:
  assumes "validRow r"
    and "\<And>r'. r' \<in> set post \<Longrightarrow> validRow r' \<Longrightarrow> label r' ''id'' \<noteq> label r ''id''"
  shows "fold applyRow (pre @ r # post) v (label r ''id'') = Some (rowInfo r)"
proof -
  have "fold applyRow (pre @ r # post) v (label r ''id'') =
        fold applyRow post (applyRow r (fold applyRow pre v)) (label r ''id'')"
    by simp
  also have "\<dots> = applyRow r (fold applyRow pre v) (label r ''id'')"
    using assms(2) by (rule fold_applyRow_other)
  also have "\<dots> = Some (rowInfo r)"
    using assms(1) by (simp add: applyRow_def)
  finally show ?thesis .
qed


lemma heap_ok_empty: "heap_ok Map.empty h"
  by (simp add: heap_ok_def)

lemma snapshot_empty: "snapshot Map.empty h = Map.empty"
  by (rule ext) (simp add: snapshot_def)

lemma loadQueryResults_from_empty:
  "loadQueryResults qr Map.empty h = (m, h') \<Longrightarrow> snapshot m h' = fold applyRow qr Map.empty"
  using loadQueryResults_fold [OF heap_ok_empty, of qr h m h'] by (simp add: snapshot_empty)

lemma loadQueryResults_rows:
  assumes "loadQueryResults qr Map.empty h = (m, h')"
  shows "loadQueryResults (filter validRow qr) Map.empty h = (m, h') \<and>
         dom (snapshot m h') = {label r ''id'' | r. r \<in> set qr \<and> validRow r} \<and>
         (\<forall>r\<in>set qr. validRow r \<longrightarrow>
            (\<exists>ci. snapshot m h' (label r ''id'') = Some ci \<and>
               (\<exists>r'\<in>set qr. validRow r' \<and> label r' ''id'' = label r ''id'' \<and> ci = rowInfo r'))) \<and>
         (\<forall>pre r post.
            qr = pre @ r # post \<and> validRow r \<and>
            (\<forall>r'\<in>set post. validRow r' \<longrightarrow> label r' ''id'' \<noteq> label r ''id'') \<longrightarrow>
            snapshot m h' (label r ''id'') = Some (rowInfo r)) \<and>
         (\<forall>bad good.
            \<not> validRow bad \<and> validRow good \<and> (qr = [bad, good] \<or> qr = [good, bad]) \<longrightarrow>
            snapshot m h' = [label good ''id'' \<mapsto> rowInfo good])"
proof -
  note sn = loadQueryResults_from_empty [OF assms]
  have c1: "loadQueryResults (filter validRow qr) Map.empty h = (m, h')"
    using assms loadQueryResults_filter [of qr Map.empty h] by simp
  have c2: "dom (snapshot m h') = {label r ''id'' | r. r \<in> set qr \<and> validRow r}"
    by (simp add: sn fold_applyRow_dom)
  have c3: "\<exists>ci. snapshot m h' (label r ''id'') = Some ci \<and>
               (\<exists>r'\<in>set qr. validRow r' \<and> label r' ''id'' = label r ''id'' \<and> ci = rowInfo r')"
    if r: "r \<in> set qr" "validRow r" for r
  proof -
    from r have "label r ''id'' \<in> dom (snapshot m h')"
      unfolding c2 by blast
    then obtain ci where ci: "snapshot m h' (label r ''id'') = Some ci" by blast
    then have "fold applyRow qr Map.empty (label r ''id'') = Some ci" by (simp add: sn)
    from fold_applyRow_val [OF this] ci show ?thesis by auto
  qed
  have c4: "snapshot m h' (label r ''id'') = Some (rowInfo r)"
    if "qr = pre @ r # post" "validRow r"
       "\<forall>r'\<in>set post. validRow r' \<longrightarrow> label r' ''id'' \<noteq> label r ''id''"
    for pre r post
    using that by (simp add: sn fold_applyRow_last del: fold_append fold_simps)
  have c5: "snapshot m h' = [label good ''id'' \<mapsto> rowInfo good]"
    if "\<not> validRow bad" "validRow good" "qr = [bad, good] \<or> qr = [good, bad]"
    for bad good
    using that by (auto simp: sn applyRow_valid applyRow_invalid)
  from c3 have c3': "\<forall>r\<in>set qr. validRow r \<longrightarrow>
            (\<exists>ci. snapshot m h' (label r ''id'') = Some ci \<and>
               (\<exists>r'\<in>set qr. validRow r' \<and> label r' ''id'' = label r ''id'' \<and> ci = rowInfo r'))"
    by blast
  from c4 have c4': "\<forall>pre r post.
            qr = pre @ r # post \<and> validRow r \<and>
            (\<forall>r'\<in>set post. validRow r' \<longrightarrow> label r' ''id'' \<noteq> label r ''id'') \<longrightarrow>
            snapshot m h' (label r ''id'') = Some (rowInfo r)"
    by blast
  from c5 have c5': "\<forall>bad good.
            \<not> validRow bad \<and> validRow good \<and> (qr = [bad, good] \<or> qr = [good, bad]) \<longrightarrow>
            snapshot m h' = [label good ''id'' \<mapsto> rowInfo good]"
    by blast
  show ?thesis
    by (intro conjI) (rule c1 c2 c3' c4' c5')+
qed


lemma Retry_first_success:
  "k < n \<Longrightarrow> (\<And>j. j < k \<Longrightarrow> snd (f (i + j)) \<noteq> None) \<Longrightarrow> f (i + k) = (qr, None) \<Longrightarrow>
   Retry f n i = (QueryResults qr, None)"
proof (induction n arbitrary: i k)
  case 0
  then show ?case by simp
next
  case (Suc n)
  show ?case
  proof (cases k)
    case 0
    with Suc.prems(3) show ?thesis by simp
  next
    case (Suc k')
    from Suc.prems(2) [of 0] Suc obtain r e where fi: "f i = (r, Some e)"
      by (cases "f i") auto
    from Suc.prems(1) Suc have kn: "k' < n" by simp
    have "\<And>j. j < k' \<Longrightarrow> snd (f (Suc i + j)) \<noteq> None"
      using Suc.prems(2) [of "Suc _"] Suc by simp
    moreover from Suc.prems(3) Suc have "f (Suc i + k') = (qr, None)" by simp
    ultimately have "Retry f n (Suc i) = (QueryResults qr, None)"
      using kn by (intro Suc.IH)
    with fi kn show ?thesis by simp
  qed
qed

lemma getLocalClusterInfo_eq:
  "getLocalClusterInfo pcm h =
     (if localCluster pcm ''id'' \<noteq> None \<and> localCluster pcm ''name'' \<noteq> None
      then (Inr (length h), h @ [localClusterInfo pcm])
      else (Inl (Error (if localCluster pcm ''id'' = None then ''Local Cluster Info Missing ID''
                        else ''Local Cluster Info Missing Name'')), h))"
  by (auto simp: getLocalClusterInfo_def localClusterInfo_def label_def alloc_def Let_def
           split: option.splits)

lemma loadClusters_rows:
  assumes r: "Retry (\<lambda>i. QuerySync w (clusterInfoQuery (if IsThanos w then QueryOffset w else [])) i)
                LoadRetries 0 = (QueryResults qr, None)"
    and l: "loadQueryResults qr Map.empty h = (m1, h1)"
  shows "loadClusters w pcm h =
     (if m1 (GetClusterID w) = None \<and>
         localCluster pcm ''id'' \<noteq> None \<and> localCluster pcm ''name'' \<noteq> None
      then ((Some (m1(label (localCluster pcm) ''id'' \<mapsto> length h1)), None),
            h1 @ [localClusterInfo pcm])
      else ((Some m1, None), h1))"
  using r l
  by (simp add: loadClusters_def getLocalClusterInfo_eq localClusterInfo_def)


lemma snapshot_after_local:
  assumes "heap_ok m1 h1" and "i \<noteq> lid"
  shows "snapshot (m1(lid \<mapsto> length h1)) (h1 @ [ci]) i = snapshot m1 h1 i"
  using assms by (auto simp: snapshot_def heap_ok_def nth_append split: option.splits)

text \<open>
  C9. A refresh whose query succeeds at one of its 6 attempts with the rows \<open>qr\<close>:
  \<^verbatim>\<open>loadClusters\<close> returns without error and \<^verbatim>\<open>refreshClusters\<close> installs its map. That
  map is the map \<open>m1\<close> that the loop over the rows builds from the empty map, with the
  local identity added under its own id when the process's cluster id is not among the
  rows and the local identity has id and name; so the installed snapshot agrees with the
  snapshot of \<open>m1\<close> on every other id. For \<open>m1\<close>: rows that miss \<open>id\<close> or \<open>name\<close> are
  skipped and the others are still processed (the result is the result on the valid
  rows alone); its ids are exactly the ids of the valid rows; every valid row has an
  entry under its id, built from a valid row with that id (absent \<open>clusterprofile\<close>,
  \<open>provider\<close>, \<open>provisioner\<close> read as empty strings), and from the row itself when no
  later valid row has the same id; one invalid and one valid row, in either order, give
  the snapshot holding exactly the valid row.
\<close>

theorem refreshClusters_loads_rows:
  assumes "k < LoadRetries"
    and "\<forall>i<k. snd (QuerySync w (clusterInfoQuery (if IsThanos w then QueryOffset w else [])) i) \<noteq> None"
    and "QuerySync w (clusterInfoQuery (if IsThanos w then QueryOffset w else [])) k = (qr, None)"
  shows "\<exists>m1 h1 m h'.
     loadQueryResults qr Map.empty h = (m1, h1) \<and>
     loadClusters w pcm h = ((Some m, None), h') \<and>
     refreshClusters w pcm h = (pcm\<lparr>clusters := Some m\<rparr>, h') \<and>
     (if m1 (GetClusterID w) = None \<and>
         localCluster pcm ''id'' \<noteq> None \<and> localCluster pcm ''name'' \<noteq> None
      then m = m1(label (localCluster pcm) ''id'' \<mapsto> length h1) \<and> h' = h1 @ [localClusterInfo pcm]
      else m = m1 \<and> h' = h1) \<and>
     (\<forall>i. i \<noteq> label (localCluster pcm) ''id'' \<longrightarrow> snapshot m h' i = snapshot m1 h1 i) \<and>
     loadQueryResults (filter validRow qr) Map.empty h = (m1, h1) \<and>
     dom (snapshot m1 h1) = {label r ''id'' | r. r \<in> set qr \<and> validRow r} \<and>
     (\<forall>r\<in>set qr. validRow r \<longrightarrow>
        (\<exists>ci. snapshot m1 h1 (label r ''id'') = Some ci \<and>
           (\<exists>r'\<in>set qr. validRow r' \<and> label r' ''id'' = label r ''id'' \<and> ci = rowInfo r'))) \<and>
     (\<forall>pre r post.
        qr = pre @ r # post \<and> validRow r \<and>
        (\<forall>r'\<in>set post. validRow r' \<longrightarrow> label r' ''id'' \<noteq> label r ''id'') \<longrightarrow>
        snapshot m1 h1 (label r ''id'') = Some (rowInfo r)) \<and>
     (\<forall>bad good.
        \<not> validRow bad \<and> validRow good \<and> (qr = [bad, good] \<or> qr = [good, bad]) \<longrightarrow>
        snapshot m1 h1 = [label good ''id'' \<mapsto> rowInfo good])"
proof -
  let ?f = "\<lambda>i. QuerySync w (clusterInfoQuery (if IsThanos w then QueryOffset w else [])) i"
  let ?ins = "m1 (GetClusterID w) = None \<and>
         localCluster pcm ''id'' \<noteq> None \<and> localCluster pcm ''name'' \<noteq> None"
  have r: "Retry ?f LoadRetries 0 = (QueryResults qr, None)"
    using assms by (intro Retry_first_success [where k = k]) simp_all
  obtain m1 h1 where l: "loadQueryResults qr Map.empty h = (m1, h1)"
    by (cases "loadQueryResults qr Map.empty h")
  define m where "m = (if m1 (GetClusterID w) = None \<and>
         localCluster pcm ''id'' \<noteq> None \<and> localCluster pcm ''name'' \<noteq> None
       then m1(label (localCluster pcm) ''id'' \<mapsto> length h1) else m1)"
  define h' where "h' = (if m1 (GetClusterID w) = None \<and>
         localCluster pcm ''id'' \<noteq> None \<and> localCluster pcm ''name'' \<noteq> None
       then h1 @ [localClusterInfo pcm] else h1)"
  have lc: "loadClusters w pcm h = ((Some m, None), h')"
    unfolding loadClusters_rows [OF r l] m_def h'_def by simp
  then have rc: "refreshClusters w pcm h = (pcm\<lparr>clusters := Some m\<rparr>, h')"
    by (simp add: refreshClusters_def)
  have ins: "if m1 (GetClusterID w) = None \<and>
         localCluster pcm ''id'' \<noteq> None \<and> localCluster pcm ''name'' \<noteq> None
      then m = m1(label (localCluster pcm) ''id'' \<mapsto> length h1) \<and> h' = h1 @ [localClusterInfo pcm]
      else m = m1 \<and> h' = h1"
    by (simp add: m_def h'_def)
  from loadQueryResults_fold [OF heap_ok_empty l] have ok: "heap_ok m1 h1" by simp
  have same: "\<forall>i. i \<noteq> label (localCluster pcm) ''id'' \<longrightarrow> snapshot m h' i = snapshot m1 h1 i"
    by (simp add: m_def h'_def snapshot_after_local [OF ok])
  note rows = loadQueryResults_rows [OF l]
  from l lc rc ins same rows show ?thesis by blast
qed


theorem refreshClusters_loads_rows_witness:
  "refreshClusters
     \<lparr>GetClusterID = ''c1'', IsThanos = False, QueryOffset = [],
      QuerySync = (\<lambda>q i. if i = 0 then ([], Some (Error ''timeout''))
                          else ([[''name'' \<mapsto> ''orphan''],
                                 [''id'' \<mapsto> ''c1'', ''name'' \<mapsto> ''prod'', ''provider'' \<mapsto> ''GCP'']],
                                None))\<rparr>
     \<lparr>clusters = Some Map.empty, localCluster = Map.empty\<rparr> []
   = (\<lparr>clusters = Some [''c1'' \<mapsto> 0], localCluster = Map.empty\<rparr>,
      [\<lparr>ID = ''c1'', Name = ''prod'', Profile = [], Provider = ''GCP'', Provisioner = []\<rparr>]) \<and>
   snapshot [''c1'' \<mapsto> 0]
      [\<lparr>ID = ''c1'', Name = ''prod'', Profile = [], Provider = ''GCP'', Provisioner = []\<rparr>]
   = [''c1'' \<mapsto> \<lparr>ID = ''c1'', Name = ''prod'', Profile = [], Provider = ''GCP'', Provisioner = []\<rparr>]"
proof -
  let ?bad = "[''name'' \<mapsto> ''orphan''] :: QueryResult"
  let ?good = "[''id'' \<mapsto> ''c1'', ''name'' \<mapsto> ''prod'', ''provider'' \<mapsto> ''GCP''] :: QueryResult"
  let ?w = "\<lparr>GetClusterID = ''c1'', IsThanos = False, QueryOffset = [],
      QuerySync = (\<lambda>q i. if i = 0 then ([], Some (Error ''timeout''))
                          else ([?bad, ?good], None))\<rparr>"
  let ?pcm = "\<lparr>clusters = Some Map.empty, localCluster = Map.empty\<rparr>"
  let ?rec = "\<lparr>ID = ''c1'', Name = ''prod'', Profile = [], Provider = ''GCP'', Provisioner = []\<rparr>"
  have a1: "(1::nat) < LoadRetries" by (simp add: LoadRetries_def)
  have a2: "\<forall>i<1. snd (QuerySync ?w (clusterInfoQuery (if IsThanos ?w then QueryOffset ?w else [])) i) \<noteq> None"
    by simp
  have a3: "QuerySync ?w (clusterInfoQuery (if IsThanos ?w then QueryOffset ?w else [])) 1
            = ([?bad, ?good], None)"
    by simp
  have e: "loadQueryResults [?bad, ?good] Map.empty [] = ([''c1'' \<mapsto> 0], [?rec])"
    by (simp add: GetString_def alloc_def)
  have b: "\<not> validRow ?bad" by (simp add: validRow_def)
  have g: "validRow ?good" by (simp add: validRow_def)
  from refreshClusters_loads_rows [OF a1 a2 a3, of "[]" ?pcm] obtain m1 h1 m h' where
    l: "loadQueryResults [?bad, ?good] Map.empty [] = (m1, h1)" and
    rc: "refreshClusters ?w ?pcm [] = (?pcm\<lparr>clusters := Some m\<rparr>, h')" and
    ins: "if m1 (GetClusterID ?w) = None \<and>
            localCluster ?pcm ''id'' \<noteq> None \<and> localCluster ?pcm ''name'' \<noteq> None
          then m = m1(label (localCluster ?pcm) ''id'' \<mapsto> length h1) \<and>
               h' = h1 @ [localClusterInfo ?pcm]
          else m = m1 \<and> h' = h1" and
    two: "\<forall>bad good.
        \<not> validRow bad \<and> validRow good \<and>
        ([?bad, ?good] = [bad, good] \<or> [?bad, ?good] = [good, bad]) \<longrightarrow>
        snapshot m1 h1 = [label good ''id'' \<mapsto> rowInfo good]"
    by (elim exE conjE) (rule that; assumption)
  from l e have m1: "m1 = [''c1'' \<mapsto> 0]" and h1: "h1 = [?rec]" by simp_all
  from ins m1 h1 have mh: "m = [''c1'' \<mapsto> 0] \<and> h' = [?rec]" by simp
  from rc mh have c1: "refreshClusters ?w ?pcm [] =
      (\<lparr>clusters = Some [''c1'' \<mapsto> 0], localCluster = Map.empty\<rparr>, [?rec])"
    by simp
  have "snapshot m1 h1 = [label ?good ''id'' \<mapsto> rowInfo ?good]"
    by (rule two [rule_format, of ?bad ?good]) (intro conjI b g disjI1 refl)
  moreover have "label ?good ''id'' = ''c1''" by (simp add: label_def)
  moreover have "rowInfo ?good = ?rec" by (simp add: rowInfo_def label_def)
  ultimately have c2: "snapshot [''c1'' \<mapsto> 0] [?rec] = [''c1'' \<mapsto> ?rec]"
    using m1 h1 by (simp only:)
  from c1 c2 show ?thesis by (intro conjI)
qed

text \<open>
  The pointers of the registry stay allocated: a refresh only appends records to the
  store, and every pointer of the map it installs is allocated. This is the condition
  under which the read operations above dereference the registry's pointers.
\<close>

lemma heap_ok_mono: "heap_ok m h \<Longrightarrow> heap_ok m (h @ h2)"
  by (fastforce simp: heap_ok_def intro: trans_less_add1)

lemma loadQueryResults_grows:
  "loadQueryResults qr m h = (m', h') \<Longrightarrow> \<exists>h2. h' = h @ h2"
proof (induction qr arbitrary: m h)
  case Nil
  then show ?case by simp
next
  case (Cons r qr)
  show ?case
  proof (cases "validRow r")
    case True
    from Cons.prems have
      "loadQueryResults qr (m(label r ''id'' \<mapsto> length h)) (h @ [rowInfo r]) = (m', h')"
      by (simp only: loadQueryResults_valid [OF True])
    from Cons.IH [OF this] show ?thesis by auto
  next
    case False
    from Cons.prems have "loadQueryResults qr m h = (m', h')"
      by (simp only: loadQueryResults_skip [OF False])
    from Cons.IH [OF this] show ?thesis .
  qed
qed

lemma getLocalClusterInfo_cases:
  "getLocalClusterInfo pcm h = (r, h') \<Longrightarrow>
   (\<exists>e. r = Inl e \<and> h' = h) \<or> (\<exists>ci. r = Inr (length h) \<and> h' = h @ [ci])"
  by (auto simp: getLocalClusterInfo_def alloc_def Let_def split: option.splits)

lemma loadClusters_ok:
  assumes "loadClusters w pcm h = ((Some m, err), h')"
  shows "heap_ok m h' \<and> (\<exists>h2. h' = h @ h2)"
proof -
  let ?f = "\<lambda>i. QuerySync w (clusterInfoQuery (if IsThanos w then QueryOffset w else [])) i"
  obtain result e where r: "Retry ?f LoadRetries 0 = (result, e)"
    by (cases "Retry ?f LoadRetries 0")
  from assms r obtain qr where q: "result = QueryResults qr" and e: "e = None"
    by (cases result) (auto simp: loadClusters_def split: if_splits)
  obtain m1 h1 where l: "loadQueryResults qr Map.empty h = (m1, h1)"
    by (cases "loadQueryResults qr Map.empty h")
  from loadQueryResults_fold [OF heap_ok_empty l] have ok1: "heap_ok m1 h1" by simp
  from loadQueryResults_grows [OF l] obtain g1 where g1: "h1 = h @ g1" by blast
  obtain lr h2 where g: "getLocalClusterInfo pcm h1 = (lr, h2)"
    by (cases "getLocalClusterInfo pcm h1")
  show ?thesis
  proof (cases "m1 (GetClusterID w) = None")
    case False
    with assms r q e l have "m = m1" "h' = h1"
      by (auto simp: loadClusters_def)
    with ok1 g1 show ?thesis by simp
  next
    case True
    from getLocalClusterInfo_cases [OF g] show ?thesis
    proof (elim disjE exE conjE)
      fix e'
      assume "lr = Inl e'" "h2 = h1"
      with assms r q e l g True have "m = m1" "h' = h1"
        by (auto simp: loadClusters_def)
      with ok1 g1 show ?thesis by simp
    next
      fix ci
      assume "lr = Inr (length h1)" "h2 = h1 @ [ci]"
      with assms r q e l g True have "m = m1(ID ci \<mapsto> length h1)" "h' = h1 @ [ci]"
        by (auto simp: loadClusters_def)
      with heap_ok_alloc [OF ok1] g1 show ?thesis by simp
    qed
  qed
qed

lemma refreshClusters_registry_ok:
  assumes "registry_ok pcm h" and "refreshClusters w pcm h = (pcm', h')"
  shows "registry_ok pcm' h' \<and> (\<exists>h2. h' = h @ h2)"
proof -
  obtain m err h1 where l: "loadClusters w pcm h = ((m, err), h1)"
    by (cases "loadClusters w pcm h") auto
  show ?thesis
  proof (cases m)
    case None
    have "h1 = h" using l None
      by (auto simp: loadClusters_def Let_def split: prod.splits iface.splits if_splits sum.splits)
    with assms l None show ?thesis
      by (cases err) (auto simp: refreshClusters_def registry_ok_def)
  next
    case (Some m')
    from loadClusters_ok [OF l [unfolded Some]] obtain h2 where
      ok: "heap_ok m' h1" and g: "h1 = h @ h2" by blast
    show ?thesis
    proof (cases err)
      case None
      with assms(2) l Some ok g show ?thesis
        by (auto simp: refreshClusters_def registry_ok_def)
    next
      case (Some e)
      with assms l g show ?thesis
        by (auto simp: refreshClusters_def registry_ok_def heap_ok_mono split: option.splits)
    qed
  qed
qed

section \<open>Properties of the pricing provider\<close>

lemma DownloadPricingData_success:
  assumes "DownloadPricingData cp = (None, cp')"
  shows "\<exists>p. GetCustomPricingData (Config cp) = Inr p \<and>
             Pricing cp' = Some (rebuilt (case Pricing cp of None \<Rightarrow> Map.empty | Some t \<Rightarrow> t) p) \<and>
             Config cp' = Config cp \<and>
             CustomProvider.SpotLabel cp' = CustomPricing.SpotLabel p \<and>
             CustomProvider.SpotLabelValue cp' = CustomPricing.SpotLabelValue p \<and>
             CustomProvider.GPULabel cp' = GpuLabel p \<and>
             CustomProvider.GPULabelValue cp' = GpuLabelValue p"
proof (cases "GetCustomPricingData (Config cp)")
  case (Inl e)
  with assms show ?thesis by (simp add: DownloadPricingData_def Let_def)
next
  case (Inr p)
  with assms show ?thesis by (auto simp: DownloadPricingData_def Let_def rebuilt_def)
qed

lemma rebuilt_default: "rebuilt m p ''default'' =
    Some \<lparr>CPU = CustomPricing.CPU p, RAM = CustomPricing.RAM p, GPU = []\<rparr>"
  by (simp add: rebuilt_def)

lemma rebuilt_spot: "rebuilt m p ''default,spot'' = Some \<lparr>CPU = SpotCPU p, RAM = SpotRAM p, GPU = []\<rparr>"
  by (simp add: rebuilt_def)

lemma rebuilt_gpu: "rebuilt m p ''default,gpu'' =
    Some \<lparr>CPU = CustomPricing.CPU p, RAM = CustomPricing.RAM p, GPU = CustomPricing.GPU p\<rparr>"
  by (simp add: rebuilt_def)

lemma rebuilt_other:
  "k \<noteq> ''default'' \<Longrightarrow> k \<noteq> ''default,spot'' \<Longrightarrow> k \<noteq> ''default,gpu'' \<Longrightarrow> rebuilt m p k = m k"
  by (simp add: rebuilt_def)

lemma mapget_Some: "mapget (Some t) k = t k"
  by (simp add: mapget_def)

lemma mapget_case: "(case m of None \<Rightarrow> Map.empty | Some t \<Rightarrow> t) k = mapget m k"
  by (simp add: mapget_def split: option.splits)

text \<open>
  C4 (as the code has it). A successful \<^verbatim>\<open>DownloadPricingData\<close> fetched the
  configuration \<open>p\<close> and assigned the three entries \<open>default\<close> (base CPU and RAM),
  \<open>default,spot\<close> (spot CPU and RAM) and \<open>default,gpu\<close> (base CPU and RAM and the GPU
  rate); it leaves every other key of the table as it was before the call. So the table
  holds exactly the three entries afterwards when it held no other key before (a nil or
  empty table, or one that earlier calls built), and \<open>default\<close> exists after every
  successful call.
\<close>

theorem DownloadPricingData_rebuild:
  assumes "DownloadPricingData cp = (None, cp')"
  shows "\<exists>p. GetCustomPricingData (Config cp) = Inr p \<and>
     mapget (Pricing cp') ''default'' =
       Some \<lparr>CPU = CustomPricing.CPU p, RAM = CustomPricing.RAM p, GPU = []\<rparr> \<and>
     mapget (Pricing cp') ''default,spot'' = Some \<lparr>CPU = SpotCPU p, RAM = SpotRAM p, GPU = []\<rparr> \<and>
     mapget (Pricing cp') ''default,gpu'' =
       Some \<lparr>CPU = CustomPricing.CPU p, RAM = CustomPricing.RAM p, GPU = CustomPricing.GPU p\<rparr> \<and>
     (\<forall>k. k \<noteq> ''default'' \<and> k \<noteq> ''default,spot'' \<and> k \<noteq> ''default,gpu'' \<longrightarrow>
          mapget (Pricing cp') k = mapget (Pricing cp) k) \<and>
     ((\<forall>k. mapget (Pricing cp) k \<noteq> None \<longrightarrow> k \<in> {''default'', ''default,spot'', ''default,gpu''}) \<longrightarrow>
      {k. mapget (Pricing cp') k \<noteq> None} = {''default'', ''default,spot'', ''default,gpu''})"
proof -
  from DownloadPricingData_success [OF assms] obtain p where
    p: "GetCustomPricingData (Config cp) = Inr p" and
    t: "Pricing cp' = Some (rebuilt (case Pricing cp of None \<Rightarrow> Map.empty | Some t \<Rightarrow> t) p)"
    by blast
  have g: "mapget (Pricing cp') k =
           rebuilt (case Pricing cp of None \<Rightarrow> Map.empty | Some t \<Rightarrow> t) p k" for k
    by (simp add: t mapget_Some)
  have other: "mapget (Pricing cp') k = mapget (Pricing cp) k"
    if "k \<noteq> ''default''" "k \<noteq> ''default,spot''" "k \<noteq> ''default,gpu''" for k
    using rebuilt_other [OF that] by (simp add: g mapget_case)
  have exact: "{k. mapget (Pricing cp') k \<noteq> None} = {''default'', ''default,spot'', ''default,gpu''}"
    if only: "\<forall>k. mapget (Pricing cp) k \<noteq> None \<longrightarrow> k \<in> {''default'', ''default,spot'', ''default,gpu''}"
  proof (rule set_eqI)
    fix k
    show "k \<in> {k. mapget (Pricing cp') k \<noteq> None} \<longleftrightarrow> k \<in> {''default'', ''default,spot'', ''default,gpu''}"
    proof (cases "k \<noteq> ''default'' \<and> k \<noteq> ''default,spot'' \<and> k \<noteq> ''default,gpu''")
      case True
      then have "mapget (Pricing cp') k = mapget (Pricing cp) k" by (simp add: other)
      moreover from True only have "mapget (Pricing cp) k = None" by blast
      ultimately show ?thesis using True by simp
    next
      case False
      then consider "k = ''default''" | "k = ''default,spot''" | "k = ''default,gpu''" by blast
      then show ?thesis
        by cases (simp_all add: g rebuilt_default rebuilt_spot rebuilt_gpu)
    qed
  qed
  show ?thesis
  proof (intro exI [of _ p] conjI allI impI)
    show "GetCustomPricingData (Config cp) = Inr p" by (rule p)
    show "mapget (Pricing cp') ''default'' =
       Some \<lparr>CPU = CustomPricing.CPU p, RAM = CustomPricing.RAM p, GPU = []\<rparr>"
      by (simp only: g rebuilt_default)
    show "mapget (Pricing cp') ''default,spot'' = Some \<lparr>CPU = SpotCPU p, RAM = SpotRAM p, GPU = []\<rparr>"
      by (simp only: g rebuilt_spot)
    show "mapget (Pricing cp') ''default,gpu'' =
       Some \<lparr>CPU = CustomPricing.CPU p, RAM = CustomPricing.RAM p, GPU = CustomPricing.GPU p\<rparr>"
      by (simp only: g rebuilt_gpu)
    show "mapget (Pricing cp') k = mapget (Pricing cp) k"
      if "k \<noteq> ''default'' \<and> k \<noteq> ''default,spot'' \<and> k \<noteq> ''default,gpu''" for k
      using that by (intro other) simp_all
    show "{k. mapget (Pricing cp') k \<noteq> None} = {''default'', ''default,spot'', ''default,gpu''}"
      if "\<forall>k. mapget (Pricing cp) k \<noteq> None \<longrightarrow> k \<in> {''default'', ''default,spot'', ''default,gpu''}"
      using that by (rule exact)
  qed
qed

theorem DownloadPricingData_rebuild_witness:
  "DownloadPricingData (sampleProvider None sampleRates) =
     (None,
      \<lparr>Pricing = Some [''default'' \<mapsto> \<lparr>CPU = ''0.05'', RAM = ''0.01'', GPU = []\<rparr>,
                       ''default,spot'' \<mapsto> \<lparr>CPU = ''0.015'', RAM = ''0.002'', GPU = []\<rparr>,
                       ''default,gpu'' \<mapsto> \<lparr>CPU = ''0.05'', RAM = ''0.01'', GPU = ''0.90''\<rparr>],
       CustomProvider.SpotLabel = ''lifecycle'', CustomProvider.SpotLabelValue = ''spot'',
       CustomProvider.GPULabel = ''accelerator'', CustomProvider.GPULabelValue = ''true'',
       Config = \<lparr>customPricing = sampleRates, loadError = None\<rparr>\<rparr>) \<and>
   mapget (Pricing (snd (DownloadPricingData (sampleProvider None sampleRates)))) ''default''
     = Some \<lparr>CPU = ''0.05'', RAM = ''0.01'', GPU = []\<rparr> \<and>
   {k. mapget (Pricing (snd (DownloadPricingData (sampleProvider None sampleRates)))) k \<noteq> None}
     = {''default'', ''default,spot'', ''default,gpu''}"
proof -
  have e: "DownloadPricingData (sampleProvider None sampleRates) =
     (None,
      \<lparr>Pricing = Some [''default'' \<mapsto> \<lparr>CPU = ''0.05'', RAM = ''0.01'', GPU = []\<rparr>,
                       ''default,spot'' \<mapsto> \<lparr>CPU = ''0.015'', RAM = ''0.002'', GPU = []\<rparr>,
                       ''default,gpu'' \<mapsto> \<lparr>CPU = ''0.05'', RAM = ''0.01'', GPU = ''0.90''\<rparr>],
       CustomProvider.SpotLabel = ''lifecycle'', CustomProvider.SpotLabelValue = ''spot'',
       CustomProvider.GPULabel = ''accelerator'', CustomProvider.GPULabelValue = ''true'',
       Config = \<lparr>customPricing = sampleRates, loadError = None\<rparr>\<rparr>)"
    by (simp add: DownloadPricingData_def GetCustomPricingData_def)
  from DownloadPricingData_rebuild [OF e] show ?thesis
    by (simp add: e mapget_def GetCustomPricingData_def)
qed

text \<open>
  C4 as the specification states it (a full replacement, whatever the table held
  before) fails on a table with an entry under another key: the entry \<open>custom\<close> is
  still there after a successful call, so the table holds four entries.
\<close>

theorem DownloadPricingData_full_replace_counterexample:
  "fst (DownloadPricingData
          (sampleProvider (Some [''custom'' \<mapsto> \<lparr>CPU = ''9'', RAM = ''9'', GPU = ''9''\<rparr>]) sampleRates))
     = None \<and>
   mapget (Pricing (snd (DownloadPricingData
          (sampleProvider (Some [''custom'' \<mapsto> \<lparr>CPU = ''9'', RAM = ''9'', GPU = ''9''\<rparr>]) sampleRates))))
      ''custom''
     = Some \<lparr>CPU = ''9'', RAM = ''9'', GPU = ''9''\<rparr> \<and>
   {k. mapget (Pricing (snd (DownloadPricingData
          (sampleProvider (Some [''custom'' \<mapsto> \<lparr>CPU = ''9'', RAM = ''9'', GPU = ''9''\<rparr>]) sampleRates)))) k
        \<noteq> None}
     \<noteq> {''default'', ''default,spot'', ''default,gpu''}"
proof -
  let ?cp = "sampleProvider (Some [''custom'' \<mapsto> \<lparr>CPU = ''9'', RAM = ''9'', GPU = ''9''\<rparr>]) sampleRates"
  have a: "fst (DownloadPricingData ?cp) = None"
    by (simp add: DownloadPricingData_def GetCustomPricingData_def)
  have b: "mapget (Pricing (snd (DownloadPricingData ?cp))) ''custom''
             = Some \<lparr>CPU = ''9'', RAM = ''9'', GPU = ''9''\<rparr>"
    by (simp add: DownloadPricingData_def GetCustomPricingData_def mapget_def)
  from b have "''custom'' \<in> {k. mapget (Pricing (snd (DownloadPricingData ?cp))) k \<noteq> None}"
    by simp
  moreover have "''custom'' \<notin> {''default'', ''default,spot'', ''default,gpu''}" by simp
  ultimately have c: "{k. mapget (Pricing (snd (DownloadPricingData ?cp))) k \<noteq> None}
     \<noteq> {''default'', ''default,spot'', ''default,gpu''}"
    by metis
  from a b c show ?thesis by (intro conjI)
qed


text \<open>
  C1. On the provider \<open>cp\<close> that a successful \<^verbatim>\<open>DownloadPricingData\<close> leaves, for a key
  whose \<^verbatim>\<open>Features()\<close> is \<open>default,spot\<close> and whose \<^verbatim>\<open>GPUType()\<close> is not empty,
  \<^verbatim>\<open>NodePricing\<close> looks the table up under \<open>default,spot,gpu\<close>. \<^verbatim>\<open>DownloadPricingData\<close>
  does not create that entry (the table has it only if it had it before the call); when
  it is missing, \<^verbatim>\<open>NodePricing\<close> dereferences a nil pointer.
\<close>

theorem NodePricing_spot_gpu_faults:
  assumes "DownloadPricingData cp0 = (None, cp)"
    and "Features key = ''default,spot''"
    and "GPUType key \<noteq> []"
  shows "fst (nodePricingKey cp key) = ''default,spot,gpu'' \<and>
         mapget (Pricing cp) ''default,spot,gpu'' = mapget (Pricing cp0) ''default,spot,gpu'' \<and>
         (mapget (Pricing cp0) ''default,spot,gpu'' = None \<longrightarrow>
            NodePricing cp key = Inl NilPointerDereference)"
proof -
  from DownloadPricingData_success [OF assms(1)] obtain p where
    t: "Pricing cp = Some (rebuilt (case Pricing cp0 of None \<Rightarrow> Map.empty | Some t \<Rightarrow> t) p)"
    by blast
  have spot: "mapget (Pricing cp) ''default,spot'' = Some \<lparr>CPU = SpotCPU p, RAM = SpotRAM p, GPU = []\<rparr>"
    by (simp add: t mapget_Some rebuilt_spot)
  have k: "nodePricingKey cp key = (''default,spot,gpu'', ''1'')"
    using assms(2,3) by (simp add: nodePricingKey_def Let_def spot)
  have same: "mapget (Pricing cp) ''default,spot,gpu'' = mapget (Pricing cp0) ''default,spot,gpu''"
    by (simp add: t mapget_Some rebuilt_other mapget_case)
  have "NodePricing cp key = Inl NilPointerDereference"
    if "mapget (Pricing cp0) ''default,spot,gpu'' = None"
    using that same by (simp add: NodePricing_def k)
  with k same show ?thesis by simp
qed

theorem NodePricing_spot_gpu_faults_witness:
  "fst (DownloadPricingData (sampleProvider None sampleRates)) = None \<and>
   Features (spotGpuKey (snd (DownloadPricingData (sampleProvider None sampleRates)))) = ''default,spot'' \<and>
   GPUType (spotGpuKey (snd (DownloadPricingData (sampleProvider None sampleRates)))) = ''nvidia-t4'' \<and>
   mapget (Pricing (sampleProvider None sampleRates)) ''default,spot,gpu'' = None \<and>
   NodePricing (snd (DownloadPricingData (sampleProvider None sampleRates)))
     (spotGpuKey (snd (DownloadPricingData (sampleProvider None sampleRates))))
     = Inl NilPointerDereference"
proof -
  let ?init = "sampleProvider None sampleRates"
  let ?cp = "snd (DownloadPricingData ?init)"
  have a: "fst (DownloadPricingData ?init) = None"
    by (simp add: DownloadPricingData_def GetCustomPricingData_def)
  then have d: "DownloadPricingData ?init = (None, ?cp)"
    by (simp only: prod_eq_iff fst_conv snd_conv simp_thms)
  have l: "CustomProvider.SpotLabel ?cp = ''lifecycle'' \<and> CustomProvider.SpotLabelValue ?cp = ''spot'' \<and>
           CustomProvider.GPULabel ?cp = ''accelerator''"
    by (simp add: DownloadPricingData_def GetCustomPricingData_def)
  have f: "Features (spotGpuKey ?cp) = ''default,spot''"
    using l by (simp add: Features_def GetKey_def labelOf_def)
  have g: "GPUType (spotGpuKey ?cp) = ''nvidia-t4''"
    using l by (simp add: GPUType_def GetKey_def)
  then have g': "GPUType (spotGpuKey ?cp) \<noteq> []" by simp
  have n: "mapget (Pricing ?init) ''default,spot,gpu'' = None"
    by (simp add: mapget_def)
  have "NodePricing ?cp (spotGpuKey ?cp) = Inl NilPointerDereference"
    by (rule NodePricing_spot_gpu_faults [OF d f g', THEN conjunct2, THEN conjunct2, THEN mp, OF n])
  with a f g n show ?thesis by (intro conjI)
qed





















lemma fmul_one: "fmul rnd v (Finite 1) = v"
  by (cases v) (simp_all add: infTimes_def)

lemma fmul_zero: "fmul rnd v (Finite 0) = (case v of Finite x \<Rightarrow> Finite 0 | _ \<Rightarrow> NaN)"
  by (cases v) (simp_all add: infTimes_def)

lemma fadd_zero: "fadd rnd v (Finite 0) = v"
  by (cases v) simp_all

lemma fadd_NaN: "fadd rnd v NaN = NaN"
  by (cases v) simp_all

lemma lbTotalCost_one_rule:
  "lbTotalCost rnd fffrc afrc lbidc (Finite 1) (Finite 0) =
     (case lbidc of Finite l \<Rightarrow> fffrc | _ \<Rightarrow> NaN)"
  by (cases lbidc) (simp_all add: lbTotalCost_def fmul_one fmul_zero fadd_zero fadd_NaN)

lemma LoadBalancerCost_spec_one_rule:
  "LoadBalancerCost_spec rnd fffrc (Finite a) lbidc 1 0 =
     (case lbidc of Finite l \<Rightarrow> fffrc | _ \<Rightarrow> NaN)"
  by (cases lbidc) (simp_all add: LoadBalancerCost_spec_def fmul_one fmul_zero fadd_zero fadd_NaN)

lemma LoadBalancerPricing_parsed:
  assumes "GetCustomPricingData (Config cp) = Inr c"
    and "ParseFloat (FirstFiveForwardingRulesCost c) = Inr fffrc"
    and "ParseFloat (AdditionalForwardingRuleCost c) = Inr afrc"
    and "ParseFloat (LBIngressDataCost c) = Inr lbidc"
  shows "LoadBalancerPricing rnd ParseFloat cp =
         Inr \<lparr>Cost = (case lbidc of Finite l \<Rightarrow> fffrc | _ \<Rightarrow> NaN)\<rparr>"
  using assms by (simp add: LoadBalancerPricing_def lbTotalCost_one_rule)

lemma LoadBalancerPricing_rounding:
  "LoadBalancerPricing rnd ParseFloat cp = LoadBalancerPricing rnd' ParseFloat cp"
  by (simp add: LoadBalancerPricing_def Let_def lbTotalCost_one_rule split: sum.splits)

lemma LoadBalancerPricing_parser:
  assumes "GetCustomPricingData (Config cp) = Inr c"
    and "pf (FirstFiveForwardingRulesCost c) = pf' (FirstFiveForwardingRulesCost c)"
    and "pf (AdditionalForwardingRuleCost c) = pf' (AdditionalForwardingRuleCost c)"
    and "pf (LBIngressDataCost c) = pf' (LBIngressDataCost c)"
  shows "LoadBalancerPricing rnd pf cp = LoadBalancerPricing rnd pf' cp"
  unfolding LoadBalancerPricing_def assms(1) sum.case assms(2-4) by (rule refl)

text \<open>
  C7 (as the code has it). When the three rates of the configuration parse,
  \<^verbatim>\<open>LoadBalancerPricing\<close> returns the first-five-rule rate if the ingress rate is a
  finite number, and NaN if it is an infinity or NaN; whatever the first-five-rule rate
  and the additional-rule rate are. If the additional-rule rate is a finite number, the
  cost returned is the value of the tiered formula of the specification at 1 rule and
  0 GB. When one of the three rates does not parse, or the configuration cannot be
  fetched, the result is an error.
\<close>

theorem LoadBalancerPricing_tiered:
  "(GetCustomPricingData (Config cp) = Inr c \<and>
    ParseFloat (FirstFiveForwardingRulesCost c) = Inr fffrc \<and>
    ParseFloat (AdditionalForwardingRuleCost c) = Inr afrc \<and>
    ParseFloat (LBIngressDataCost c) = Inr lbidc \<longrightarrow>
      ((\<exists>l. lbidc = Finite l) \<longrightarrow>
         LoadBalancerPricing rnd ParseFloat cp = Inr \<lparr>Cost = fffrc\<rparr>) \<and>
      ((\<forall>l. lbidc \<noteq> Finite l) \<longrightarrow>
         LoadBalancerPricing rnd ParseFloat cp = Inr \<lparr>Cost = NaN\<rparr>) \<and>
      ((\<exists>a. afrc = Finite a) \<longrightarrow>
         LoadBalancerPricing rnd ParseFloat cp =
           Inr \<lparr>Cost = LoadBalancerCost_spec rnd fffrc afrc lbidc 1 0\<rparr>)) \<and>
   (GetCustomPricingData (Config cp) = Inr c \<and>
    (ParseFloat (FirstFiveForwardingRulesCost c) = Inl e \<or>
     ParseFloat (AdditionalForwardingRuleCost c) = Inl e \<or>
     ParseFloat (LBIngressDataCost c) = Inl e) \<longrightarrow>
      (\<exists>e'. LoadBalancerPricing rnd ParseFloat cp = Inl e')) \<and>
   (GetCustomPricingData (Config cp) = Inl e \<longrightarrow>
      LoadBalancerPricing rnd ParseFloat cp = Inl e)"
proof (intro conjI impI)
  assume h: "GetCustomPricingData (Config cp) = Inr c \<and>
    ParseFloat (FirstFiveForwardingRulesCost c) = Inr fffrc \<and>
    ParseFloat (AdditionalForwardingRuleCost c) = Inr afrc \<and>
    ParseFloat (LBIngressDataCost c) = Inr lbidc"
  then have p: "LoadBalancerPricing rnd ParseFloat cp =
         Inr \<lparr>Cost = (case lbidc of Finite l \<Rightarrow> fffrc | _ \<Rightarrow> NaN)\<rparr>"
    by (elim conjE) (rule LoadBalancerPricing_parsed)
  {
    assume "\<exists>l. lbidc = Finite l"
    with p show "LoadBalancerPricing rnd ParseFloat cp = Inr \<lparr>Cost = fffrc\<rparr>" by auto
  }
  {
    assume "\<forall>l. lbidc \<noteq> Finite l"
    with p show "LoadBalancerPricing rnd ParseFloat cp = Inr \<lparr>Cost = NaN\<rparr>"
      by (cases lbidc) simp_all
  }
  {
    assume "\<exists>a. afrc = Finite a"
    then obtain a where "afrc = Finite a" ..
    with p show "LoadBalancerPricing rnd ParseFloat cp =
           Inr \<lparr>Cost = LoadBalancerCost_spec rnd fffrc afrc lbidc 1 0\<rparr>"
      by (simp add: LoadBalancerCost_spec_one_rule)
  }
next
  assume h: "GetCustomPricingData (Config cp) = Inr c \<and>
    (ParseFloat (FirstFiveForwardingRulesCost c) = Inl e \<or>
     ParseFloat (AdditionalForwardingRuleCost c) = Inl e \<or>
     ParseFloat (LBIngressDataCost c) = Inl e)"
  then have g: "GetCustomPricingData (Config cp) = Inr c" by (rule conjunct1)
  from h consider
    (first) "ParseFloat (FirstFiveForwardingRulesCost c) = Inl e" |
    (second) "ParseFloat (AdditionalForwardingRuleCost c) = Inl e" |
    (third) "ParseFloat (LBIngressDataCost c) = Inl e"
    by blast
  then show "\<exists>e'. LoadBalancerPricing rnd ParseFloat cp = Inl e'"
  proof cases
    case first
    with g show ?thesis by (simp add: LoadBalancerPricing_def)
  next
    case second
    with g show ?thesis by (simp add: LoadBalancerPricing_def split: sum.splits)
  next
    case third
    with g show ?thesis by (simp add: LoadBalancerPricing_def split: sum.splits)
  qed
next
  assume "GetCustomPricingData (Config cp) = Inl e"
  then show "LoadBalancerPricing rnd ParseFloat cp = Inl e"
    by (simp add: LoadBalancerPricing_def)
qed

theorem LoadBalancerPricing_tiered_witness:
  "LoadBalancerPricing Finite ParseFloat_sample (sampleProvider None dyadicRates)
     = Inr \<lparr>Cost = Finite (1 / 2)\<rparr> \<and>
   LoadBalancerCost_spec Finite (Finite (1 / 2)) (Finite (1 / 4)) (Finite (1 / 8)) 1 0
     = Finite (1 / 2) \<and>
   LoadBalancerPricing Finite ParseFloat_sample
       (sampleProvider None (dyadicRates\<lparr>LBIngressDataCost := ''NaN''\<rparr>))
     = Inr \<lparr>Cost = NaN\<rparr> \<and>
   LoadBalancerPricing Finite ParseFloat_sample
       (sampleProvider None (dyadicRates\<lparr>AdditionalForwardingRuleCost := ''ten''\<rparr>))
     = Inl (Error (''strconv.ParseFloat: parsing '' @ [CHR 0x22] @ ''ten'' @ [CHR 0x22] @
                   '': invalid syntax'')) \<and>
   LoadBalancerPricing Finite ParseFloat_sample (failingProvider None dyadicRates)
     = Inl (Error ''configuration unavailable'')"
proof -
  let ?S = "sampleProvider None dyadicRates"
  let ?N = "sampleProvider None (dyadicRates\<lparr>LBIngressDataCost := ''NaN''\<rparr>)"
  let ?B = "sampleProvider None (dyadicRates\<lparr>AdditionalForwardingRuleCost := ''ten''\<rparr>)"
  let ?F = "failingProvider None dyadicRates"
  have g: "GetCustomPricingData (Config ?S) = Inr dyadicRates"
    by (simp add: GetCustomPricingData_def)
  have p1: "ParseFloat_sample (FirstFiveForwardingRulesCost dyadicRates) = Inr (Finite (1 / 2))"
    by (simp add: ParseFloat_sample_def)
  have p2: "ParseFloat_sample (AdditionalForwardingRuleCost dyadicRates) = Inr (Finite (1 / 4))"
    by (simp add: ParseFloat_sample_def)
  have p3: "ParseFloat_sample (LBIngressDataCost dyadicRates) = Inr (Finite (1 / 8))"
    by (simp add: ParseFloat_sample_def)
  note t = LoadBalancerPricing_tiered
    [where cp = ?S and c = dyadicRates and ParseFloat = ParseFloat_sample and rnd = Finite
       and fffrc = "Finite (1 / 2)" and afrc = "Finite (1 / 4)" and lbidc = "Finite (1 / 8)",
     THEN conjunct1, THEN mp, OF conjI [OF g conjI [OF p1 conjI [OF p2 p3]]]]
  have c1: "LoadBalancerPricing Finite ParseFloat_sample ?S = Inr \<lparr>Cost = Finite (1 / 2)\<rparr>"
    by (rule t [THEN conjunct1, THEN mp]) (rule exI, rule refl)
  have f: "LoadBalancerPricing Finite ParseFloat_sample ?S =
           Inr \<lparr>Cost = LoadBalancerCost_spec Finite (Finite (1 / 2)) (Finite (1 / 4)) (Finite (1 / 8)) 1 0\<rparr>"
    by (rule t [THEN conjunct2, THEN conjunct2, THEN mp]) (rule exI, rule refl)
  with c1 have c2: "LoadBalancerCost_spec Finite (Finite (1 / 2)) (Finite (1 / 4)) (Finite (1 / 8)) 1 0
     = Finite (1 / 2)"
    by simp
  have gN: "GetCustomPricingData (Config ?N) = Inr (dyadicRates\<lparr>LBIngressDataCost := ''NaN''\<rparr>)"
    by (simp add: GetCustomPricingData_def)
  have n3: "ParseFloat_sample (LBIngressDataCost (dyadicRates\<lparr>LBIngressDataCost := ''NaN''\<rparr>)) = Inr NaN"
    by (simp add: ParseFloat_sample_def)
  have n1: "ParseFloat_sample (FirstFiveForwardingRulesCost (dyadicRates\<lparr>LBIngressDataCost := ''NaN''\<rparr>))
            = Inr (Finite (1 / 2))"
    by (simp add: ParseFloat_sample_def)
  have n2: "ParseFloat_sample (AdditionalForwardingRuleCost (dyadicRates\<lparr>LBIngressDataCost := ''NaN''\<rparr>))
            = Inr (Finite (1 / 4))"
    by (simp add: ParseFloat_sample_def)
  have c3: "LoadBalancerPricing Finite ParseFloat_sample ?N = Inr \<lparr>Cost = NaN\<rparr>"
    by (rule LoadBalancerPricing_tiered
          [where cp = ?N and ParseFloat = ParseFloat_sample and rnd = Finite
             and fffrc = "Finite (1 / 2)" and afrc = "Finite (1 / 4)" and lbidc = NaN,
           THEN conjunct1, THEN mp, OF conjI [OF gN conjI [OF n1 conjI [OF n2 n3]]],
           THEN conjunct2, THEN conjunct1, THEN mp]) simp
  have gB: "GetCustomPricingData (Config ?B) =
            Inr (dyadicRates\<lparr>AdditionalForwardingRuleCost := ''ten''\<rparr>)"
    by (simp add: GetCustomPricingData_def)
  have b2: "ParseFloat_sample (AdditionalForwardingRuleCost
              (dyadicRates\<lparr>AdditionalForwardingRuleCost := ''ten''\<rparr>))
            = Inl (Error (''strconv.ParseFloat: parsing '' @ [CHR 0x22] @ ''ten'' @ [CHR 0x22] @
                   '': invalid syntax''))"
    by (simp add: ParseFloat_sample_def)
  from LoadBalancerPricing_tiered
          [where cp = ?B and ParseFloat = ParseFloat_sample and rnd = Finite,
           THEN conjunct2, THEN conjunct1, THEN mp, OF conjI [OF gB disjI2 [OF disjI1 [OF b2]]]]
  obtain e' where "LoadBalancerPricing Finite ParseFloat_sample ?B = Inl e'" ..
  moreover have "LoadBalancerPricing Finite ParseFloat_sample ?B \<noteq> Inl e'"
    if "e' \<noteq> Error (''strconv.ParseFloat: parsing '' @ [CHR 0x22] @ ''ten'' @ [CHR 0x22] @
                   '': invalid syntax'')"
    using that by (simp add: LoadBalancerPricing_def GetCustomPricingData_def ParseFloat_sample_def)
  ultimately have c4: "LoadBalancerPricing Finite ParseFloat_sample ?B
     = Inl (Error (''strconv.ParseFloat: parsing '' @ [CHR 0x22] @ ''ten'' @ [CHR 0x22] @
                   '': invalid syntax''))"
    by blast
  have gF: "GetCustomPricingData (Config ?F) = Inl (Error ''configuration unavailable'')"
    by (simp add: GetCustomPricingData_def)
  have c5: "LoadBalancerPricing Finite ParseFloat_sample ?F = Inl (Error ''configuration unavailable'')"
    by (rule LoadBalancerPricing_tiered
          [where cp = ?F and ParseFloat = ParseFloat_sample and rnd = Finite,
           THEN conjunct2, THEN conjunct2, THEN mp, OF gF])
  from c1 c2 c3 c4 c5 show ?thesis by (intro conjI)
qed

text \<open>
  C7 as the specification states it fails for rates that parse to an infinity. With the
  ingress rate \<^verbatim>\<open>"Inf"\<close> the product of the infinity and the 0 GB is NaN, and the cost
  returned is NaN, not the first-five-rule rate. With the additional-rule rate \<^verbatim>\<open>"Inf"\<close>
  the code returns the first-five-rule rate, where the tiered formula multiplies the
  infinity by 0 rules and is NaN.
\<close>

theorem LoadBalancerPricing_infinite_rate_counterexample:
  "ParseFloat_sample ''0.5'' = Inr (Finite (1 / 2)) \<and>
   ParseFloat_sample ''Inf'' = Inr PosInf \<and>
   LoadBalancerPricing Finite ParseFloat_sample
       (sampleProvider None (dyadicRates\<lparr>LBIngressDataCost := ''Inf''\<rparr>))
     = Inr \<lparr>Cost = NaN\<rparr> \<and>
   LoadBalancerPricing Finite ParseFloat_sample
       (sampleProvider None (dyadicRates\<lparr>LBIngressDataCost := ''Inf''\<rparr>))
     \<noteq> Inr \<lparr>Cost = Finite (1 / 2)\<rparr> \<and>
   LoadBalancerPricing Finite ParseFloat_sample
       (sampleProvider None (dyadicRates\<lparr>AdditionalForwardingRuleCost := ''Inf''\<rparr>))
     = Inr \<lparr>Cost = Finite (1 / 2)\<rparr> \<and>
   LoadBalancerCost_spec Finite (Finite (1 / 2)) PosInf (Finite (1 / 8)) 1 0 = NaN \<and>
   LoadBalancerPricing Finite ParseFloat_sample
       (sampleProvider None (dyadicRates\<lparr>AdditionalForwardingRuleCost := ''Inf''\<rparr>))
     \<noteq> Inr \<lparr>Cost = LoadBalancerCost_spec Finite (Finite (1 / 2)) PosInf (Finite (1 / 8)) 1 0\<rparr>"
  by (simp add: LoadBalancerPricing_def GetCustomPricingData_def ParseFloat_sample_def
        lbTotalCost_def LoadBalancerCost_spec_def infTimes_def)

end
